theory Spec2Isabelle
  imports Complex_Main "HOL-Library.AList" "HOL-Library.Sublist"
begin

section \<open>Gillespie simulation of the Lotka-Volterra model: the embedding\<close>

text \<open>
  The development embeds the class \<open>LV\<close> of \<open>Code/Lotka_Volterra/robert_gillespie.ipynb\<close>.

  \<^item> Python dictionaries are association lists in insertion order: \<open>d[k]\<close> is
    \<open>map_of d k\<close> (a missing key raises \<open>KeyError\<close>), \<open>d[k] = v\<close> is
    \<open>AList.update k v d\<close>.
  \<^item> Species counts are Python's unbounded integers (\<open>int\<close>).
  \<^item> Rates and hazards are Python floats (binary64), modelled by the type \<open>pyfloat\<close>: a
    finite value, an infinity or NaN. Converting an integer that is too large raises
    \<open>OverflowError\<close>, and a product or sum is infinite as soon as its exact value reaches the
    overflow threshold of binary64; below the threshold rounding is idealised, the result
    being the exact real. Times and waiting times are finite floats, idealised as reals.
  \<^item> Population dictionaries are mutable objects that the caller and the simulator may
    share, so they live in an explicit heap: a list of dictionaries addressed by index (a
    reference is an index below the length of the heap). \<open>deepcopy\<close> allocates a new
    cell at the end of the heap.
  \<^item> Exceptions are values: a run returns the machine state it reached together with
    \<open>None\<close> (it returned) or \<open>Some e\<close> (it raised \<open>e\<close>; the mutations made before the
    raise stay visible, as they do in Python).
\<close>

subsection \<open>Values, errors, distributions\<close>

datatype py_error = KeyError | IndexError | TypeError | OverflowError

text \<open>A Python float: a finite number, plus or minus infinity, or NaN.\<close>

datatype pyfloat = Fin real | PosInf | NegInf | NaN

text \<open>
  The overflow threshold of binary64 under rounding to nearest: the midpoint between the
  largest finite double and \<open>2 ^ 1024\<close>. An exact result of this magnitude or more has no
  finite double.
\<close>

definition overflow_threshold :: real where
  "overflow_threshold = 2 ^ 1024 - 2 ^ 970"

text \<open>The float that an exact finite result becomes.\<close>

definition fl :: "real \<Rightarrow> pyfloat" where
  "fl r = (if overflow_threshold \<le> r then PosInf
          else if r \<le> - overflow_threshold then NegInf else Fin r)"

text \<open>
  The conversion of an \<open>int\<close> operand of a float operation: \<open>OverflowError\<close> (int too large
  to convert to float) from the threshold on.
\<close>

definition float_of_int :: "int \<Rightarrow> py_error + pyfloat" where
  "float_of_int x =
     (if overflow_threshold \<le> \<bar>real_of_int x\<bar> then Inl OverflowError else Inr (Fin (real_of_int x)))"

text \<open>Float multiplication: NaN is contagious, and infinity times zero is NaN.\<close>

fun fmul :: "pyfloat \<Rightarrow> pyfloat \<Rightarrow> pyfloat" where
  "fmul NaN b = NaN"
| "fmul a NaN = NaN"
| "fmul (Fin a) (Fin b) = fl (a * b)"
| "fmul (Fin a) PosInf = (if a = 0 then NaN else if 0 < a then PosInf else NegInf)"
| "fmul (Fin a) NegInf = (if a = 0 then NaN else if 0 < a then NegInf else PosInf)"
| "fmul PosInf (Fin b) = (if b = 0 then NaN else if 0 < b then PosInf else NegInf)"
| "fmul NegInf (Fin b) = (if b = 0 then NaN else if 0 < b then NegInf else PosInf)"
| "fmul PosInf PosInf = PosInf"
| "fmul PosInf NegInf = NegInf"
| "fmul NegInf PosInf = NegInf"
| "fmul NegInf NegInf = PosInf"

text \<open>Float addition: infinity minus infinity is NaN.\<close>

fun fadd :: "pyfloat \<Rightarrow> pyfloat \<Rightarrow> pyfloat" where
  "fadd NaN b = NaN"
| "fadd a NaN = NaN"
| "fadd (Fin a) (Fin b) = fl (a + b)"
| "fadd (Fin a) PosInf = PosInf"
| "fadd (Fin a) NegInf = NegInf"
| "fadd PosInf (Fin b) = PosInf"
| "fadd NegInf (Fin b) = NegInf"
| "fadd PosInf PosInf = PosInf"
| "fadd PosInf NegInf = NaN"
| "fadd NegInf PosInf = NaN"
| "fadd NegInf NegInf = NegInf"

text \<open>The comparison \<open>a <= b\<close> of floats: false as soon as one side is NaN.\<close>

fun fle :: "pyfloat \<Rightarrow> pyfloat \<Rightarrow> bool" where
  "fle NaN b = False"
| "fle a NaN = False"
| "fle (Fin a) (Fin b) = (a \<le> b)"
| "fle NegInf b = True"
| "fle a PosInf = True"
| "fle PosInf b = False"
| "fle a NegInf = False"

text \<open>\<open>f * n\<close> for a float \<open>f\<close> and an \<open>int\<close> \<open>n\<close>: the integer is converted first.\<close>

definition py_mul :: "pyfloat \<Rightarrow> int \<Rightarrow> py_error + pyfloat" where
  "py_mul f n = (case float_of_int n of Inl e \<Rightarrow> Inl e | Inr g \<Rightarrow> Inr (fmul f g))"

text \<open>\<open>sum(xs)\<close> over floats: from the left, starting at 0.\<close>

definition py_sum :: "pyfloat list \<Rightarrow> pyfloat" where
  "py_sum xs = foldl fadd (Fin 0) xs"

text \<open>What a random choice can yield: a dictionary key or a float.\<close>

datatype val = Str string | Num real

text \<open>The two distribution constructors the notebook imports from \<open>particle\<close>.\<close>

datatype dist = Discrete "(string \<times> pyfloat) list" | Exponential pyfloat

text \<open>\<open>d[k]\<close> where the key is a drawn value: a float is hashable, so it is a missing key.\<close>

fun lookup_val :: "(string \<times> 'v) list \<Rightarrow> val \<Rightarrow> 'v option" where
  "lookup_val d (Str k) = map_of d k"
| "lookup_val d (Num x) = None"

text \<open>\<open>xs[i]\<close> on a sequence, for the two indices the code uses.\<close>

definition index :: "'a list \<Rightarrow> nat \<Rightarrow> 'a option" where
  "index xs i = (if i < length xs then Some (xs ! i) else None)"

subsection \<open>Labels of random choices\<close>

text \<open>\<open>"event_{}".format(i)\<close> and \<open>"t_{}".format(i)\<close>: the decimal rendering of \<open>i\<close>.\<close>

definition digit_char :: "nat \<Rightarrow> char" where
  "digit_char d = ''0123456789'' ! d"

fun format_nat :: "nat \<Rightarrow> string" where
  "format_nat n =
     (if n < 10 then [digit_char n] else format_nat (n div 10) @ [digit_char (n mod 10)])"

declare format_nat.simps [simp del]

definition event_label :: "nat \<Rightarrow> string" where
  "event_label i = ''event_'' @ format_nat i"

definition t_label :: "nat \<Rightarrow> string" where
  "t_label i = ''t_'' @ format_nat i"

subsection \<open>The binding environment\<close>

text \<open>
  Modelled from the spec: the environment object \<open>env\<close> that \<open>run\<close> receives. It belongs to
  the library \<open>particle\<close>, which is not part of the repository. By section 4.3 of the
  specification it holds the forced values of a conditioned run (label to value) and the
  trace of the choices made so far: label, distribution, value, and whether the value was
  observed rather than sampled. The random-number stream is the field \<open>sampler\<close>: any
  function from label and distribution to the value a fresh draw gives.
\<close>

record env =
  evidence :: "(string \<times> val) list"
  sampler :: "string \<Rightarrow> dist \<Rightarrow> val"
  trace :: "(string \<times> dist \<times> val \<times> bool) list"

text \<open>
  Modelled from the spec: the method \<open>env.bind(label, distribution)\<close> of the same library.
  By section 4.3 it records the label, the distribution and the drawn value in the trace; a
  label that has a forced value yields that value instead of a sample and is recorded as
  observed.
\<close>

definition env_bind :: "env \<Rightarrow> string \<Rightarrow> dist \<Rightarrow> val \<times> env" where
  "env_bind e l d =
     (case map_of (evidence e) l of
        Some v \<Rightarrow> (v, e\<lparr>trace := trace e @ [(l, d, v, True)]\<rparr>)
      | None \<Rightarrow> (sampler e l d, e\<lparr>trace := trace e @ [(l, d, sampler e l d, False)]\<rparr>))"

text \<open>
  Modelled from the spec: the trace read back as a mapping from label to value (the
  library's \<open>trace.value\<close>, which the notebook turns into evidence), which is what a later
  run is conditioned on.
\<close>

definition trace_value :: "env \<Rightarrow> (string \<times> val) list" where
  "trace_value e = map (\<lambda>(l, d, v, ob). (l, v)) (trace e)"

text \<open>
  Modelled from the spec: the total weight of the library's categorical distribution
  \<open>Discrete\<close>, by which section 4.2 (step 3) normalises the hazards.
\<close>

definition total_weight :: "(string \<times> pyfloat) list \<Rightarrow> pyfloat" where
  "total_weight ws = py_sum (map snd ws)"

text \<open>
  Modelled from the spec: the probability \<open>Discrete\<close> gives a key, its weight normalised by
  the total weight (section 4.2, step 3); a key that is not in the dictionary has
  probability 0. The specification speaks of weights that are numbers: there is no
  probability when the weight or the total is infinite or NaN.
\<close>

definition probability :: "(string \<times> pyfloat) list \<Rightarrow> string \<Rightarrow> real option" where
  "probability ws k =
     (case total_weight ws of
        Fin tot \<Rightarrow>
          (case map_of ws k of
             None \<Rightarrow> Some 0
           | Some (Fin w) \<Rightarrow> Some (w / tot)
           | Some other \<Rightarrow> None)
      | other \<Rightarrow> None)"

text \<open>
  Modelled from the spec: the mean of the library's \<open>Exponential\<close> distribution of rate
  \<open>r\<close>, which is \<open>1 / r\<close> (section 4.2, step 4), for a rate that is a number.
\<close>

definition mean_waiting_time :: "dist \<Rightarrow> real option" where
  "mean_waiting_time d =
     (case d of Exponential (Fin r) \<Rightarrow> Some (1 / r) | Exponential other \<Rightarrow> None
      | Discrete ws \<Rightarrow> None)"

subsection \<open>The simulator object and the machine state\<close>

text \<open>
  The fields \<open>__init__\<close> sets. \<open>initial\<close> is a reference to the caller's dictionary;
  \<open>self.trajectory\<close> is a dictionary with the two fixed keys \<open>prey\<close> and \<open>pred\<close>, kept as
  two fields; \<open>self.times\<close> is \<open>times_list\<close> (\<open>times\<close> is HOL's multiplication).
\<close>

record lv =
  transitions :: "(string \<times> int list) list"
  select_hyp :: string
  initial :: nat
  times_list :: "real list"
  trajectory_prey :: "int list"
  trajectory_pred :: "int list"
  N :: int

text \<open>What a run works on: the heap, the simulator object and the binding environment.\<close>

record machine =
  m_heap :: "(string \<times> int) list list"
  m_self :: lv
  m_env :: env

text \<open>\<open>LV.__init__\<close>: reads \<open>initial['prey']\<close> and \<open>initial['pred']\<close>, in that order.\<close>

definition LV_init ::
  "(string \<times> int) list list \<Rightarrow> (string \<times> int list) list \<Rightarrow> nat \<Rightarrow> int \<Rightarrow> string \<Rightarrow> real
     \<Rightarrow> py_error + lv" where
  "LV_init h trs init n sel t0 =
     (case map_of (h ! init) ''prey'' of
        None \<Rightarrow> Inl KeyError
      | Some x \<Rightarrow>
          (case map_of (h ! init) ''pred'' of
             None \<Rightarrow> Inl KeyError
           | Some y \<Rightarrow>
               Inr \<lparr>transitions = trs, select_hyp = sel, initial = init, times_list = [t0],
                    trajectory_prey = [x], trajectory_pred = [y], N = n\<rparr>))"

subsection \<open>Hazards\<close>

text \<open>
  \<open>LV.get_hazards\<close>. The dictionary display is evaluated entry by entry and each product from
  the left: a subscript can raise \<open>KeyError\<close>, a product of a float and a count can raise
  \<open>OverflowError\<close>, and the first exception ends the call. The function has no effect.
\<close>

definition get_hazards ::
  "(string \<times> int) list \<Rightarrow> (string \<times> pyfloat) list \<Rightarrow> py_error + (string \<times> pyfloat) list" where
  "get_hazards ecology theta =
     (case map_of theta ''spawn_prey'' of None \<Rightarrow> Inl KeyError | Some a \<Rightarrow>
     (case map_of ecology ''prey'' of None \<Rightarrow> Inl KeyError | Some x \<Rightarrow>
     (case py_mul a x of Inl e \<Rightarrow> Inl e | Inr h1 \<Rightarrow>
     (case map_of theta ''prey2pred'' of None \<Rightarrow> Inl KeyError | Some b \<Rightarrow>
     (case py_mul b x of Inl e \<Rightarrow> Inl e | Inr bx \<Rightarrow>
     (case map_of ecology ''pred'' of None \<Rightarrow> Inl KeyError | Some y \<Rightarrow>
     (case py_mul bx y of Inl e \<Rightarrow> Inl e | Inr h2 \<Rightarrow>
     (case map_of theta ''pred_dies'' of None \<Rightarrow> Inl KeyError | Some c \<Rightarrow>
     (case py_mul c y of Inl e \<Rightarrow> Inl e | Inr h3 \<Rightarrow>
        Inr [(''spawn_prey'', h1), (''prey2pred'', h2), (''pred_dies'', h3)])))))))))"

text \<open>
  The table \<open>theta_hypotheses\<close> of \<open>run\<close>. The rate \<open>1\<close> of H1 is an \<open>int\<close> in the source and
  is read as the float \<open>1.0\<close>: a count too large for a float raises \<open>OverflowError\<close> in the
  \<open>prey2pred\<close> product of the same call either way.
\<close>

definition theta_hypotheses :: "(string \<times> (string \<times> pyfloat) list) list" where
  "theta_hypotheses =
     [(''H1'', [(''spawn_prey'', Fin 1), (''prey2pred'', Fin 0.005), (''pred_dies'', Fin 0.6)]),
      (''H2'', [(''spawn_prey'', Fin 0.9), (''prey2pred'', Fin 0.004), (''pred_dies'', Fin 0.4)]),
      (''H3'', [(''spawn_prey'', Fin 1.5), (''prey2pred'', Fin 0.01), (''pred_dies'', Fin 0.8)])]"

text \<open>The distribution \<open>run\<close> binds \<open>theta\<close> to; a repeated key of a dictionary display
  overwrites the earlier value and keeps its place, a new key goes last.\<close>

definition theta_prior :: "string \<Rightarrow> dist" where
  "theta_prior sel =
     (if sel \<noteq> ''none''
      then Discrete (AList.update sel (Fin 1) [(''H1'', Fin 0), (''H2'', Fin 0), (''H3'', Fin 0)])
      else Discrete [(''H1'', Fin (1 - 0.6666)), (''H2'', Fin 0.3333), (''H3'', Fin 0.3333)])"

subsection \<open>One iteration of the loop\<close>

text \<open>
  Lines \<open>ecology['prey'] += transition[0]\<close> to \<open>ecology['pred'] = max(0, ecology['pred'])\<close>,
  on the dictionary at address \<open>eco\<close>. The first augmented assignment is stored before the
  second one is evaluated; the two clamps read back the counts just stored, \<open>x + dx\<close> and
  \<open>y + dy\<close>.
\<close>

definition apply_transition ::
  "(string \<times> int) list list \<Rightarrow> nat \<Rightarrow> int list \<Rightarrow> (string \<times> int) list list \<times> py_error option" where
  "apply_transition h eco transition =
     (case map_of (h ! eco) ''prey'' of
        None \<Rightarrow> (h, Some KeyError)
      | Some x \<Rightarrow>
     (case index transition 0 of
        None \<Rightarrow> (h, Some IndexError)
      | Some dx \<Rightarrow>
     (let h1 = h[eco := AList.update ''prey'' (x + dx) (h ! eco)] in
      case map_of (h1 ! eco) ''pred'' of
        None \<Rightarrow> (h1, Some KeyError)
      | Some y \<Rightarrow>
     (case index transition 1 of
        None \<Rightarrow> (h1, Some IndexError)
      | Some dy \<Rightarrow>
     (let h2 = h1[eco := AList.update ''pred'' (y + dy) (h1 ! eco)];
          h3 = h2[eco := AList.update ''prey'' (max 0 (x + dx)) (h2 ! eco)];
          h4 = h3[eco := AList.update ''pred'' (max 0 (y + dy)) (h3 ! eco)]
      in (h4, None))))))"

text \<open>The three \<open>append\<close> calls that end an iteration.\<close>

definition record_step :: "lv \<Rightarrow> (string \<times> int) list \<Rightarrow> real \<Rightarrow> py_error + lv" where
  "record_step s ecology t =
     (case map_of ecology ''prey'' of
        None \<Rightarrow> Inl KeyError
      | Some x \<Rightarrow>
          (case map_of ecology ''pred'' of
             None \<Rightarrow> Inl KeyError
           | Some y \<Rightarrow>
               Inr (s\<lparr>trajectory_prey := trajectory_prey s @ [x],
                      trajectory_pred := trajectory_pred s @ [y],
                      times_list := times_list s @ [t]\<rparr>)))"

text \<open>
  The body of \<open>for i in range(1, self.N)\<close>. It returns the machine it reached and either
  the new value of the local \<open>t\<close> or the exception raised.
\<close>

definition run_step ::
  "(string \<times> pyfloat) list \<Rightarrow> nat \<Rightarrow> nat \<Rightarrow> real \<Rightarrow> machine \<Rightarrow> machine \<times> (py_error + real)" where
  "run_step theta eco i t m =
     (case get_hazards (m_heap m ! eco) theta of
        Inl e \<Rightarrow> (m, Inl e)
      | Inr hazards \<Rightarrow>
     (let (ev, env1) = env_bind (m_env m) (event_label i) (Discrete hazards);
          m1 = m\<lparr>m_env := env1\<rparr>
      in case lookup_val (transitions (m_self m)) ev of
        None \<Rightarrow> (m1, Inl KeyError)
      | Some transition \<Rightarrow>
     (let (w, env2) = env_bind env1 (t_label i) (Exponential (py_sum (map snd hazards)));
          m2 = m1\<lparr>m_env := env2\<rparr>
      in case w of
        Str s \<Rightarrow> (m2, Inl TypeError)
      | Num dt \<Rightarrow>
     (let t' = t + dt;
          (h', r) = apply_transition (m_heap m2) eco transition;
          m3 = m2\<lparr>m_heap := h'\<rparr>
      in case r of
        Some e \<Rightarrow> (m3, Inl e)
      | None \<Rightarrow>
     (case record_step (m_self m3) (h' ! eco) t' of
        Inl e \<Rightarrow> (m3, Inl e)
      | Inr s' \<Rightarrow> (m3\<lparr>m_self := s'\<rparr>, Inr t'))))))"

subsection \<open>The run\<close>

text \<open>
  The loop over the indices of \<open>range(1, self.N)\<close>: the iterations in order, each from the
  machine and the time the one before left, up to the first exception.
\<close>

fun run_loop ::
  "(string \<times> pyfloat) list \<Rightarrow> nat \<Rightarrow> nat list \<Rightarrow> real \<Rightarrow> machine \<Rightarrow> machine \<times> py_error option" where
  "run_loop theta eco [] t m = (m, None)"
| "run_loop theta eco (i # js) t m =
     (case run_step theta eco i t m of
        (m', Inl e) \<Rightarrow> (m', Some e)
      | (m', Inr t') \<Rightarrow> run_loop theta eco js t' m')"

text \<open>
  \<open>LV.run\<close>. \<open>deepcopy(self.initial)\<close> puts a copy of the initial dictionary in a new heap
  cell, whose address is the local \<open>ecology\<close>; \<open>self.select_hyp is not "none"\<close> compares
  with the interned literal and is read as inequality of strings; \<open>self.times[0]\<close> raises
  \<open>IndexError\<close> on an empty list; \<open>range(1, self.N)\<close> is \<open>[1..<nat N]\<close>, empty for
  \<open>N \<le> 1\<close>.
\<close>

definition run :: "machine \<Rightarrow> machine \<times> py_error option" where
  "run m =
     (let ecology = length (m_heap m);
          m0 = m\<lparr>m_heap := m_heap m @ [m_heap m ! initial (m_self m)]\<rparr>;
          (theta_dex, env1) = env_bind (m_env m0) ''theta'' (theta_prior (select_hyp (m_self m0)));
          m1 = m0\<lparr>m_env := env1\<rparr>
      in case lookup_val theta_hypotheses theta_dex of
        None \<Rightarrow> (m1, Some KeyError)
      | Some theta \<Rightarrow>
          (case times_list (m_self m1) of
             [] \<Rightarrow> (m1, Some IndexError)
           | t # ts \<Rightarrow> run_loop theta ecology [1..<nat (N (m_self m1))] t m1))"

text \<open>The transition dictionary the notebook builds from \<open>Post - Pre\<close>.\<close>

definition notebook_transitions :: "(string \<times> int list) list" where
  "notebook_transitions =
     [(''spawn_prey'', [1, 0]), (''prey2pred'', [- 1, 1]), (''pred_dies'', [0, - 1])]"

subsection \<open>Auxiliary definitions for the proofs\<close>

text \<open>The machine after a complete iteration that recorded counts \<open>x\<close>, \<open>y\<close> and time \<open>t\<close>.\<close>

definition step_result :: "machine \<Rightarrow> nat \<Rightarrow> env \<Rightarrow> int \<Rightarrow> int \<Rightarrow> real \<Rightarrow> machine" where
  "step_result m eco e x y t =
     \<lparr>m_heap = (m_heap m)[eco := AList.update ''pred'' y (AList.update ''prey'' x (m_heap m ! eco))],
      m_self = (m_self m)\<lparr>trajectory_prey := trajectory_prey (m_self m) @ [x],
                 trajectory_pred := trajectory_pred (m_self m) @ [y],
                 times_list := times_list (m_self m) @ [t]\<rparr>,
      m_env = e\<rparr>"

text \<open>The machine when the loop of \<open>run\<close> starts.\<close>

definition pre_loop :: "machine \<Rightarrow> machine" where
  "pre_loop m = m\<lparr>m_heap := m_heap m @ [m_heap m ! initial (m_self m)],
        m_env := snd (env_bind (m_env m) ''theta'' (theta_prior (select_hyp (m_self m))))\<rparr>"

text \<open>
  What \<open>env_bind\<close> yields and the environment it leaves, separately: the drawn value depends
  on the forced values and the sampler only, and binding changes the trace only.
\<close>

definition draw :: "env \<Rightarrow> string \<Rightarrow> dist \<Rightarrow> val" where
  "draw e l d = (case map_of (evidence e) l of Some v \<Rightarrow> v | None \<Rightarrow> sampler e l d)"

definition bound :: "env \<Rightarrow> string \<Rightarrow> dist \<Rightarrow> env" where
  "bound e l d = e\<lparr>trace := trace e @ [(l, d, draw e l d, map_of (evidence e) l \<noteq> None)]\<rparr>"

text \<open>The trace entries added between two machine states.\<close>

definition new_trace :: "machine \<Rightarrow> machine \<Rightarrow> (string \<times> dist \<times> val \<times> bool) list" where
  "new_trace m m' = drop (length (trace (m_env m))) (trace (m_env m'))"

text \<open>An environment that would draw, for each listed choice, the value listed.\<close>

definition agrees :: "env \<Rightarrow> (string \<times> dist \<times> val \<times> bool) list \<Rightarrow> bool" where
  "agrees e es = list_all (\<lambda>(l, d, v, ob). draw e l d = v) es"

text \<open>The labels a complete run binds, in order.\<close>

definition loop_labels :: "nat list \<Rightarrow> string list" where
  "loop_labels js = concat (map (\<lambda>i. [event_label i, t_label i]) js)"

definition run_labels :: "int \<Rightarrow> string list" where
  "run_labels n = ''theta'' # loop_labels [1..<nat n]"

text \<open>The two entries a step adds once both choices are bound.\<close>

definition step_binds :: "env \<Rightarrow> nat \<Rightarrow> (string \<times> pyfloat) list \<Rightarrow> (string \<times> dist \<times> val \<times> bool) list" where
  "step_binds e i hz =
     [(event_label i, Discrete hz, draw e (event_label i) (Discrete hz),
        map_of (evidence e) (event_label i) \<noteq> None),
      (t_label i, Exponential (py_sum (map snd hz)),
        draw e (t_label i) (Exponential (py_sum (map snd hz))),
        map_of (evidence e) (t_label i) \<noteq> None)]"

definition step_env :: "env \<Rightarrow> nat \<Rightarrow> (string \<times> pyfloat) list \<Rightarrow> env" where
  "step_env e i hz =
     bound (bound e (event_label i) (Discrete hz)) (t_label i) (Exponential (py_sum (map snd hz)))"

text \<open>
  An environment conditioned on the whole trace of the run from machine \<open>m\<close>, with a fresh
  trace of its own and a sampler whose value is never a dictionary key or a number the run
  can use.
\<close>

definition replay_env :: "machine \<Rightarrow> env" where
  "replay_env m = \<lparr>evidence = trace_value (m_env (fst (run m))), sampler = (\<lambda>l d. Str ''unused''), trace = []\<rparr>"

text \<open>
  The waiting times among a list of trace entries, that is the values bound against an
  exponential distribution, are numbers that are not negative.
\<close>

definition waits_nonneg :: "(string \<times> dist \<times> val \<times> bool) list \<Rightarrow> bool" where
  "waits_nonneg es \<longleftrightarrow>
     list_all (\<lambda>(l, d, v, ob).
        case d of Discrete ws \<Rightarrow> True
        | Exponential r \<Rightarrow> (case v of Num w \<Rightarrow> 0 \<le> w | Str k \<Rightarrow> True)) es"


text \<open>
  Draws of the right kind for a simulator with transitions \<open>trs\<close> and policy \<open>sel\<close>: the
  choice of \<open>theta\<close> yields the name of a hypothesis, a categorical choice over the three
  events yields an event that \<open>trs\<close> maps to at least two deltas, and an exponential choice
  yields a number.
\<close>

definition well_typed_draws :: "env \<Rightarrow> (string \<times> int list) list \<Rightarrow> string \<Rightarrow> bool" where
  "well_typed_draws e trs sel \<longleftrightarrow>
     (\<exists>k theta. draw e ''theta'' (theta_prior sel) = Str k \<and>
               map_of theta_hypotheses k = Some theta) \<and>
     (\<forall>i hz. map fst hz = [''spawn_prey'', ''prey2pred'', ''pred_dies''] \<longrightarrow>
        (\<exists>k tr. draw e (event_label i) (Discrete hz) = Str k \<and>
               map_of trs k = Some tr \<and> 2 \<le> length tr)) \<and>
     (\<forall>i r. \<exists>w. draw e (t_label i) (Exponential r) = Num w)"


text \<open>
  The choices a run makes after \<open>theta\<close>, as labels and distributions, rebuilt from the
  rate parameters and the recorded counts: iteration \<open>i\<close> binds \<open>event_i\<close> to the
  hazards of the counts recorded before it and \<open>t_i\<close> to their sum.
\<close>

fun expected_binds ::
  "(string \<times> pyfloat) list \<Rightarrow> nat list \<Rightarrow> int list \<Rightarrow> int list \<Rightarrow> (string \<times> dist) list" where
  "expected_binds theta (i # js) (x # xs) (y # ys) =
     (case get_hazards [(''prey'', x), (''pred'', y)] theta of
        Inr hz \<Rightarrow> (event_label i, Discrete hz) #
                  (t_label i, Exponential (py_sum (map snd hz))) #
                  expected_binds theta js xs ys
      | Inl e \<Rightarrow> [])"
| "expected_binds theta js xs ys = []"

definition label_dist :: "string \<times> dist \<times> val \<times> bool \<Rightarrow> string \<times> dist" where
  "label_dist b = (fst b, fst (snd b))"

text \<open>
  Concrete machines for the examples: one population dictionary at address 0, the simulator
  \<open>LV(transitions, {'prey': x, 'pred': y}, n, select_hyp=sel)\<close> as \<open>__init__\<close> leaves it, and
  an environment with a fresh trace, forced values \<open>ev\<close>, and a sampler that reads its draws
  from the table \<open>draws\<close>.
\<close>

definition demo_sim :: "int \<Rightarrow> int \<Rightarrow> int \<Rightarrow> string \<Rightarrow> lv" where
  "demo_sim x y n sel = \<lparr>transitions = notebook_transitions, select_hyp = sel, initial = 0,
     times_list = [0], trajectory_prey = [x], trajectory_pred = [y], N = n\<rparr>"

definition demo_env :: "(string \<times> val) list \<Rightarrow> (string \<times> val) list \<Rightarrow> env" where
  "demo_env ev draws =
     \<lparr>evidence = ev,
      sampler = (\<lambda>l d. case map_of draws l of Some v \<Rightarrow> v | None \<Rightarrow> Num 0),
      trace = []\<rparr>"

definition demo_machine ::
  "int \<Rightarrow> int \<Rightarrow> int \<Rightarrow> string \<Rightarrow> (string \<times> val) list \<Rightarrow> (string \<times> val) list \<Rightarrow> machine" where
  "demo_machine x y n sel ev draws =
     \<lparr>m_heap = [[(''prey'', x), (''pred'', y)]], m_self = demo_sim x y n sel,
      m_env = demo_env ev draws\<rparr>"

section \<open>Basic facts\<close>

subsection \<open>Floats\<close>

lemma threshold_above: "2 ^ 1023 < overflow_threshold"
  by (simp add: overflow_threshold_def)

lemma fl_below: "\<bar>r\<bar> < overflow_threshold \<Longrightarrow> fl r = Fin r"
  unfolding fl_def by (auto simp: abs_less_iff)

lemma fl_small: "\<bar>r\<bar> < 2 ^ 1023 \<Longrightarrow> fl r = Fin r"
  by (rule fl_below) (rule less_trans [OF _ threshold_above])

lemma threshold_pos: "0 < overflow_threshold"
  by (rule less_trans [OF _ threshold_above]) simp

lemma fl_nonneg: "0 \<le> r \<Longrightarrow> fle (Fin 0) (fl r)"
  using threshold_pos by (auto simp: fl_def)

lemma fl_zero [simp]: "fl 0 = Fin 0"
  by (rule fl_small) simp

lemma float_of_int_small:
  assumes "\<bar>x\<bar> < 2 ^ 1023"
  shows "float_of_int x = Inr (Fin (real_of_int x))"
proof -
  from assms have "real_of_int \<bar>x\<bar> < real_of_int (2 ^ 1023)"
    by (simp only: of_int_less_iff)
  then have "\<bar>real_of_int x\<bar> < 2 ^ 1023" by simp
  with threshold_above show ?thesis by (simp add: float_of_int_def)
qed

lemma py_mul_small: "\<bar>x\<bar> < 2 ^ 1023 \<Longrightarrow> py_mul f x = Inr (fmul f (Fin (real_of_int x)))"
  by (simp add: py_mul_def float_of_int_small)

lemma fl_demo: "\<bar>r\<bar> \<le> 1000000 \<Longrightarrow> fl r = Fin r"
  by (rule fl_small) (rule le_less_trans, assumption, simp)

lemma float_of_int_demo: "\<bar>x\<bar> \<le> 1000000 \<Longrightarrow> float_of_int x = Inr (Fin (real_of_int x))"
  by (rule float_of_int_small) (rule le_less_trans, assumption, simp)

subsection \<open>Evaluation of concrete runs\<close>

lemmas run_eval =
  run_def run_step_def get_hazards_def py_mul_def float_of_int_demo fl_demo
  py_sum_def env_bind_def theta_prior_def theta_hypotheses_def
  event_label_def t_label_def format_nat.simps digit_char_def apply_transition_def index_def
  record_step_def notebook_transitions_def LV_init_def Let_def upt_rec
  demo_machine_def demo_sim_def demo_env_def

lemma demo_sim_init:
  "LV_init [[(''prey'', x), (''pred'', y)]] notebook_transitions 0 n sel 0 = Inr (demo_sim x y n sel)"
  by (simp add: LV_init_def demo_sim_def)

subsection \<open>Binding and labels\<close>

lemma env_bind_eq: "env_bind e l d = (draw e l d, bound e l d)"
  by (simp add: env_bind_def draw_def bound_def split: option.splits)

lemma draw_bound [simp]: "draw (bound e l d) = draw e"
  by (rule ext, rule ext) (simp add: draw_def bound_def split: option.splits)

lemma evidence_bound [simp]: "evidence (bound e l d) = evidence e"
  by (simp add: bound_def)

lemma sampler_bound [simp]: "sampler (bound e l d) = sampler e"
  by (simp add: bound_def)

lemma trace_bound:
  "trace (bound e l d) = trace e @ [(l, d, draw e l d, map_of (evidence e) l \<noteq> None)]"
  by (simp add: bound_def)

lemma digit_char_inj: "a < 10 \<Longrightarrow> b < 10 \<Longrightarrow> digit_char a = digit_char b \<Longrightarrow> a = b"
proof -
  assume "a < 10" "b < 10" "digit_char a = digit_char b"
  have ds: "distinct ''0123456789''" by simp
  have "a < length ''0123456789''" "b < length ''0123456789''"
    using \<open>a < 10\<close> \<open>b < 10\<close> by simp_all
  with ds \<open>digit_char a = digit_char b\<close> show "a = b"
    unfolding digit_char_def by (simp only: nth_eq_iff_index_eq)
qed

lemma format_nat_nonempty: "format_nat n \<noteq> []"
  by (subst format_nat.simps) simp

lemma format_nat_inj: "format_nat n = format_nat m \<Longrightarrow> n = m"
proof (induction n arbitrary: m rule: format_nat.induct)
  case (1 n)
  show ?case
  proof (cases "n < 10")
    case True
    then have fn: "format_nat n = [digit_char n]" by (subst format_nat.simps) simp
    show ?thesis
    proof (cases "m < 10")
      case mt: True
      then have "format_nat m = [digit_char m]" by (subst format_nat.simps) simp
      with fn "1.prems" True mt show ?thesis by (auto dest: digit_char_inj)
    next
      case mf: False
      then have "format_nat m = format_nat (m div 10) @ [digit_char (m mod 10)]"
        by (subst format_nat.simps) simp
      with fn "1.prems" format_nat_nonempty [of "m div 10"] show ?thesis by (cases "format_nat (m div 10)") auto
    qed
  next
    case False
    then have fn: "format_nat n = format_nat (n div 10) @ [digit_char (n mod 10)]"
      by (subst format_nat.simps) simp
    show ?thesis
    proof (cases "m < 10")
      case mt: True
      then have "format_nat m = [digit_char m]" by (subst format_nat.simps) simp
      with fn "1.prems" format_nat_nonempty [of "n div 10"] show ?thesis by (cases "format_nat (n div 10)") auto
    next
      case mf: False
      then have "format_nat m = format_nat (m div 10) @ [digit_char (m mod 10)]"
        by (subst format_nat.simps) simp
      with fn "1.prems" have eq: "format_nat (n div 10) = format_nat (m div 10)"
        "digit_char (n mod 10) = digit_char (m mod 10)" by auto
      from "1.IH" [OF False eq(1)] have d: "n div 10 = m div 10" .
      from digit_char_inj [OF _ _ eq(2)] have r: "n mod 10 = m mod 10" by simp
      from d r show ?thesis by (metis div_mult_mod_eq)
    qed
  qed
qed

lemma label_inj [simp]:
  "event_label i = event_label j \<longleftrightarrow> i = j"
  "t_label i = t_label j \<longleftrightarrow> i = j"
  "event_label i \<noteq> t_label j" "t_label j \<noteq> event_label i"
  "event_label i \<noteq> ''theta''" "''theta'' \<noteq> event_label i"
  "t_label i \<noteq> ''theta''" "''theta'' \<noteq> t_label i"
  by (auto simp: event_label_def t_label_def dest: format_nat_inj)

lemma new_trace_self [simp]: "new_trace m m = []"
  by (simp add: new_trace_def)

lemma new_trace_bound1 [simp]:
  "new_trace m (m\<lparr>m_env := bound (m_env m) l d\<rparr>) =
     [(l, d, draw (m_env m) l d, map_of (evidence (m_env m)) l \<noteq> None)]"
  by (simp add: new_trace_def trace_bound)

lemma new_trace_bound2:
  "trace (m_env m') = trace (bound (bound (m_env m) l d) l' d') \<Longrightarrow>
   new_trace m m' =
     [(l, d, draw (m_env m) l d, map_of (evidence (m_env m)) l \<noteq> None),
      (l', d', draw (m_env m) l' d', map_of (evidence (m_env m)) l' \<noteq> None)]"
  by (simp add: new_trace_def trace_bound)

lemma agrees_append [simp]: "agrees e (xs @ ys) \<longleftrightarrow> agrees e xs \<and> agrees e ys"
  by (simp add: agrees_def)

lemma agrees_Nil [simp]: "agrees e []"
  by (simp add: agrees_def)

lemma agrees_draw_cong: "draw e' = draw e \<Longrightarrow> agrees e' es = agrees e es"
  by (simp add: agrees_def)

lemma new_trace_eq: "trace (m_env m') = trace (m_env m) @ new \<Longrightarrow> new_trace m m' = new"
  by (simp add: new_trace_def)

lemma new_trace_trans:
  assumes "trace (m_env m1) = trace (m_env m) @ new_trace m m1"
    and "trace (m_env m') = trace (m_env m1) @ new_trace m1 m'"
  shows "new_trace m m' = new_trace m m1 @ new_trace m1 m'"
    and "trace (m_env m') = trace (m_env m) @ new_trace m m'"
proof -
  have "trace (m_env m') = trace (m_env m) @ (new_trace m m1 @ new_trace m1 m')"
    using assms by simp
  then show "new_trace m m' = new_trace m m1 @ new_trace m1 m'"
    by (rule new_trace_eq)
  with assms show "trace (m_env m') = trace (m_env m) @ new_trace m m'" by simp
qed

lemma step_env_simps [simp]:
  "draw (step_env e i hz) = draw e" "evidence (step_env e i hz) = evidence e"
  "sampler (step_env e i hz) = sampler e"
  "trace (step_env e i hz) = trace e @ step_binds e i hz"
  by (simp_all add: step_env_def step_binds_def trace_bound)

subsection \<open>Applying a transition\<close>

lemma update_over:
  "AList.update p a (AList.update q b (AList.update p c (AList.update q d al))) =
   AList.update p a (AList.update q b al)"
  by (induction al) auto

lemma apply_transition_length:
  "apply_transition h eco tr = (h', r) \<Longrightarrow> length h' = length h"
  by (auto simp: apply_transition_def Let_def split: option.splits)

lemma apply_transition_None:
  assumes "eco < length h" and "apply_transition h eco tr = (h', None)"
  shows "\<exists>x y dx dy. map_of (h ! eco) ''prey'' = Some x \<and> map_of (h ! eco) ''pred'' = Some y
           \<and> index tr 0 = Some dx \<and> index tr 1 = Some dy
           \<and> h' = h[eco := AList.update ''pred'' (max 0 (y + dy))
                            (AList.update ''prey'' (max 0 (x + dx)) (h ! eco))]"
  using assms
  by (auto simp: apply_transition_def Let_def update_conv' update_over split: option.splits)

lemma apply_transition_Some:
  assumes "eco < length h" "map_of (h ! eco) ''prey'' = Some x" "map_of (h ! eco) ''pred'' = Some y"
    "index tr 0 = Some dx" "index tr 1 = Some dy"
  shows "apply_transition h eco tr =
           (h[eco := AList.update ''pred'' (max 0 (y + dy))
                            (AList.update ''prey'' (max 0 (x + dx)) (h ! eco))], None)"
  using assms
  by (auto simp: apply_transition_def Let_def update_conv' update_over split: option.splits)

lemma apply_transition_frame:
  assumes "apply_transition h eco tr = (h', r)"
  shows "length h' = length h \<and> (\<forall>a. a \<noteq> eco \<longrightarrow> h' ! a = h ! a)"
  using assms
  by (auto simp: apply_transition_def Let_def split: option.splits)

subsection \<open>One iteration\<close>

lemma record_step_Inr:
  "record_step s ecology t = Inr s' \<Longrightarrow>
     \<exists>x y. map_of ecology ''prey'' = Some x \<and> map_of ecology ''pred'' = Some y \<and>
       s' = s\<lparr>trajectory_prey := trajectory_prey s @ [x],
              trajectory_pred := trajectory_pred s @ [y],
              times_list := times_list s @ [t]\<rparr>"
  by (auto simp: record_step_def split: option.splits)

lemma run_step_Inl:
  assumes "run_step theta eco i t m = (m', Inl e)"
  shows "m_self m' = m_self m \<and> length (m_heap m') = length (m_heap m)"
  using assms
  by (auto simp: run_step_def Let_def split: sum.splits prod.splits option.splits val.splits
      dest: apply_transition_length)

lemma run_step_Inr:
  assumes "eco < length (m_heap m)" and "run_step theta eco i t m = (m', Inr t')"
  shows "\<exists>hz ev e1 tr dt e2 x y dx dy.
    get_hazards (m_heap m ! eco) theta = Inr hz \<and>
    env_bind (m_env m) (event_label i) (Discrete hz) = (ev, e1) \<and>
    lookup_val (transitions (m_self m)) ev = Some tr \<and>
    env_bind e1 (t_label i) (Exponential (py_sum (map snd hz))) = (Num dt, e2) \<and>
    map_of (m_heap m ! eco) ''prey'' = Some x \<and> map_of (m_heap m ! eco) ''pred'' = Some y \<and>
    index tr 0 = Some dx \<and> index tr 1 = Some dy \<and> t' = t + dt \<and>
    m' = step_result m eco e2 (max 0 (x + dx)) (max 0 (y + dy)) (t + dt)"
proof -
  from assms(2) obtain hz where hz: "get_hazards (m_heap m ! eco) theta = Inr hz"
    by (auto simp: run_step_def Let_def split: sum.splits)
  obtain ev e1 where b1: "env_bind (m_env m) (event_label i) (Discrete hz) = (ev, e1)"
    by (cases "env_bind (m_env m) (event_label i) (Discrete hz)")
  from assms(2) hz b1 obtain tr where tr: "lookup_val (transitions (m_self m)) ev = Some tr"
    by (auto simp: run_step_def Let_def split: option.splits)
  obtain w e2 where b2: "env_bind e1 (t_label i) (Exponential (py_sum (map snd hz))) = (w, e2)"
    by (cases "env_bind e1 (t_label i) (Exponential (py_sum (map snd hz)))")
  from assms(2) hz b1 tr b2 obtain dt where w: "w = Num dt"
    by (auto simp: run_step_def Let_def split: val.splits)
  obtain h' r where at: "apply_transition (m_heap m) eco tr = (h', r)"
    by (cases "apply_transition (m_heap m) eco tr")
  from assms(2) hz b1 tr b2 w at have r: "r = None"
    by (auto simp: run_step_def Let_def split: option.splits)
  from apply_transition_None [OF assms(1) at [unfolded r]]
  obtain x y dx dy where xy: "map_of (m_heap m ! eco) ''prey'' = Some x"
      "map_of (m_heap m ! eco) ''pred'' = Some y" "index tr 0 = Some dx" "index tr 1 = Some dy"
      and h': "h' = (m_heap m)[eco := AList.update ''pred'' (max 0 (y + dy))
                            (AList.update ''prey'' (max 0 (x + dx)) (m_heap m ! eco))]"
    by blast
  have rd: "map_of (h' ! eco) ''prey'' = Some (max 0 (x + dx))"
       "map_of (h' ! eco) ''pred'' = Some (max 0 (y + dy))"
    using assms(1) by (simp_all add: h' update_conv')
  from assms(2) hz b1 tr b2 w at r rd
  have "t' = t + dt \<and> m' = step_result m eco e2 (max 0 (x + dx)) (max 0 (y + dy)) (t + dt)"
    by (auto simp: run_step_def Let_def record_step_def step_result_def h' split: sum.splits)
  with hz b1 tr b2 w xy show ?thesis by blast
qed

lemma run_step_ok:
  assumes "eco < length (m_heap m)"
    and "get_hazards (m_heap m ! eco) theta = Inr hz"
    and "env_bind (m_env m) (event_label i) (Discrete hz) = (ev, e1)"
    and "lookup_val (transitions (m_self m)) ev = Some tr"
    and "env_bind e1 (t_label i) (Exponential (py_sum (map snd hz))) = (Num dt, e2)"
    and "map_of (m_heap m ! eco) ''prey'' = Some x" and "map_of (m_heap m ! eco) ''pred'' = Some y"
    and "index tr 0 = Some dx" and "index tr 1 = Some dy"
  shows "run_step theta eco i t m =
           (step_result m eco e2 (max 0 (x + dx)) (max 0 (y + dy)) (t + dt), Inr (t + dt))"
proof -
  let ?h' = "(m_heap m)[eco := AList.update ''pred'' (max 0 (y + dy))
                            (AList.update ''prey'' (max 0 (x + dx)) (m_heap m ! eco))]"
  have at: "apply_transition (m_heap m) eco tr = (?h', None)"
    using assms by (intro apply_transition_Some) auto
  have rd: "map_of (?h' ! eco) ''prey'' = Some (max 0 (x + dx))"
       "map_of (?h' ! eco) ''pred'' = Some (max 0 (y + dy))"
    using assms(1) by (simp_all add: update_conv')
  show ?thesis
    using assms(2-5) at rd
    by (simp add: run_step_def Let_def record_step_def step_result_def)
qed

lemma run_step_cases:
  assumes "run_step theta eco i t m = (m', r)"
  obtains
    (hazards) e where "get_hazards (m_heap m ! eco) theta = Inl e" "m' = m" "r = Inl e"
  | (event) hz where "get_hazards (m_heap m ! eco) theta = Inr hz"
      "lookup_val (transitions (m_self m)) (draw (m_env m) (event_label i) (Discrete hz)) = None"
      "m' = m\<lparr>m_env := bound (m_env m) (event_label i) (Discrete hz)\<rparr>" "r = Inl KeyError"
  | (time) hz tr s where "get_hazards (m_heap m ! eco) theta = Inr hz"
      "lookup_val (transitions (m_self m)) (draw (m_env m) (event_label i) (Discrete hz)) = Some tr"
      "draw (m_env m) (t_label i) (Exponential (py_sum (map snd hz))) = Str s"
      "m' = m\<lparr>m_env := bound (bound (m_env m) (event_label i) (Discrete hz)) (t_label i)
                (Exponential (py_sum (map snd hz)))\<rparr>" "r = Inl TypeError"
  | (transition) hz tr dt h' e where "get_hazards (m_heap m ! eco) theta = Inr hz"
      "lookup_val (transitions (m_self m)) (draw (m_env m) (event_label i) (Discrete hz)) = Some tr"
      "draw (m_env m) (t_label i) (Exponential (py_sum (map snd hz))) = Num dt"
      "apply_transition (m_heap m) eco tr = (h', Some e)"
      "m' = m\<lparr>m_env := bound (bound (m_env m) (event_label i) (Discrete hz)) (t_label i)
                (Exponential (py_sum (map snd hz))), m_heap := h'\<rparr>" "r = Inl e"
  | (append) hz tr dt h' e where "get_hazards (m_heap m ! eco) theta = Inr hz"
      "lookup_val (transitions (m_self m)) (draw (m_env m) (event_label i) (Discrete hz)) = Some tr"
      "draw (m_env m) (t_label i) (Exponential (py_sum (map snd hz))) = Num dt"
      "apply_transition (m_heap m) eco tr = (h', None)"
      "record_step (m_self m) (h' ! eco) (t + dt) = Inl e"
      "m' = m\<lparr>m_env := bound (bound (m_env m) (event_label i) (Discrete hz)) (t_label i)
                (Exponential (py_sum (map snd hz))), m_heap := h'\<rparr>" "r = Inl e"
  | (ok) hz tr dt h' s' where "get_hazards (m_heap m ! eco) theta = Inr hz"
      "lookup_val (transitions (m_self m)) (draw (m_env m) (event_label i) (Discrete hz)) = Some tr"
      "draw (m_env m) (t_label i) (Exponential (py_sum (map snd hz))) = Num dt"
      "apply_transition (m_heap m) eco tr = (h', None)"
      "record_step (m_self m) (h' ! eco) (t + dt) = Inr s'"
      "m' = m\<lparr>m_env := bound (bound (m_env m) (event_label i) (Discrete hz)) (t_label i)
                (Exponential (py_sum (map snd hz))), m_heap := h', m_self := s'\<rparr>"
      "r = Inr (t + dt)"
proof (cases "get_hazards (m_heap m ! eco) theta")
  case (Inl e)
  with assms show ?thesis by (intro hazards [of e]) (auto simp: run_step_def)
next
  case hz: (Inr hz)
  show ?thesis
  proof (cases "lookup_val (transitions (m_self m)) (draw (m_env m) (event_label i) (Discrete hz))")
    case None
    with assms hz show ?thesis
      by (intro event [of hz]) (auto simp: run_step_def env_bind_eq Let_def)
  next
    case tr: (Some tr)
    show ?thesis
    proof (cases "draw (m_env m) (t_label i) (Exponential (py_sum (map snd hz)))")
      case (Str s)
      with assms hz tr show ?thesis
        by (intro time [of hz tr s]) (auto simp: run_step_def env_bind_eq Let_def)
    next
      case dt: (Num dt)
      obtain h' ro where at: "apply_transition (m_heap m) eco tr = (h', ro)"
        by (cases "apply_transition (m_heap m) eco tr")
      show ?thesis
      proof (cases ro)
        case (Some e)
        with assms hz tr dt at show ?thesis
          by (intro transition [of hz tr dt h' e]) (auto simp: run_step_def env_bind_eq Let_def)
      next
        case None
        show ?thesis
        proof (cases "record_step (m_self m) (h' ! eco) (t + dt)")
          case (Inl e)
          with assms hz tr dt at None show ?thesis
            by (intro append [of hz tr dt h' e]) (auto simp: run_step_def env_bind_eq Let_def)
        next
          case (Inr s')
          with assms hz tr dt at None show ?thesis
            by (intro ok [of hz tr dt h' s']) (auto simp: run_step_def env_bind_eq Let_def)
        qed
      qed
    qed
  qed
qed

subsection \<open>The trace of an iteration, and replaying it\<close>

lemma run_step_trace:
  assumes "run_step theta eco i t m = (m', r)"
  shows "trace (m_env m') = trace (m_env m) @ new_trace m m'"
    and "draw (m_env m') = draw (m_env m)"
    and "agrees (m_env m) (new_trace m m')"
    and "prefix (map fst (new_trace m m')) [event_label i, t_label i]"
    and "r = Inr t' \<Longrightarrow> \<exists>hz. get_hazards (m_heap m ! eco) theta = Inr hz \<and>
            new_trace m m' = step_binds (m_env m) i hz"
proof -
  have "trace (m_env m') = trace (m_env m) @ new_trace m m' \<and>
    draw (m_env m') = draw (m_env m) \<and>
    agrees (m_env m) (new_trace m m') \<and>
    prefix (map fst (new_trace m m')) [event_label i, t_label i] \<and>
    (r = Inr t' \<longrightarrow> (\<exists>hz. get_hazards (m_heap m ! eco) theta = Inr hz \<and>
            new_trace m m' = step_binds (m_env m) i hz))"
    using assms
  proof (cases rule: run_step_cases)
    case (hazards e)
    then show ?thesis by simp
  next
    case (event hz)
    then show ?thesis by (simp add: trace_bound agrees_def)
  next
    case (time hz tr s)
    then have "trace (m_env m') = trace (m_env m) @ step_binds (m_env m) i hz"
      by (simp add: step_env_def [symmetric])
    with time show ?thesis
      by (simp add: new_trace_eq) (simp add: step_binds_def agrees_def)
  next
    case (transition hz tr dt h' e)
    then have "trace (m_env m') = trace (m_env m) @ step_binds (m_env m) i hz"
      by (simp add: step_env_def [symmetric])
    with transition show ?thesis
      by (simp add: new_trace_eq) (simp add: step_binds_def agrees_def)
  next
    case (append hz tr dt h' e)
    then have "trace (m_env m') = trace (m_env m) @ step_binds (m_env m) i hz"
      by (simp add: step_env_def [symmetric])
    with append show ?thesis
      by (simp add: new_trace_eq) (simp add: step_binds_def agrees_def)
  next
    case (ok hz tr dt h' s')
    then have "trace (m_env m') = trace (m_env m) @ step_binds (m_env m) i hz"
      by (simp add: step_env_def [symmetric])
    with ok show ?thesis
      by (simp add: new_trace_eq) (simp add: step_binds_def agrees_def)
  qed
  then show "trace (m_env m') = trace (m_env m) @ new_trace m m'"
    and "draw (m_env m') = draw (m_env m)"
    and "agrees (m_env m) (new_trace m m')"
    and "prefix (map fst (new_trace m m')) [event_label i, t_label i]"
    and "r = Inr t' \<Longrightarrow> \<exists>hz. get_hazards (m_heap m ! eco) theta = Inr hz \<and>
            new_trace m m' = step_binds (m_env m) i hz"
    by blast+
qed


lemma agrees_step:
  assumes "trace (m_env m') = trace (step_env (m_env m) i hz)"
    and "agrees e2 (new_trace m m')"
  shows "draw e2 (event_label i) (Discrete hz) = draw (m_env m) (event_label i) (Discrete hz)"
    and "draw e2 (t_label i) (Exponential (py_sum (map snd hz))) =
           draw (m_env m) (t_label i) (Exponential (py_sum (map snd hz)))"
proof -
  from assms(1) have "new_trace m m' = step_binds (m_env m) i hz"
    by (intro new_trace_eq) simp
  with assms(2) show "draw e2 (event_label i) (Discrete hz) = draw (m_env m) (event_label i) (Discrete hz)"
    and "draw e2 (t_label i) (Exponential (py_sum (map snd hz))) =
           draw (m_env m) (t_label i) (Exponential (py_sum (map snd hz)))"
    by (simp_all add: agrees_def step_binds_def)
qed

lemma run_step_replay:
  assumes st: "run_step theta eco i t m = (m', r)"
    and same: "m_heap m2 = m_heap m" "m_self m2 = m_self m"
    and ag: "agrees (m_env m2) (new_trace m m')"
  shows "\<exists>m2'. run_step theta eco i t m2 = (m2', r) \<and> m_heap m2' = m_heap m' \<and>
           m_self m2' = m_self m' \<and> draw (m_env m2') = draw (m_env m2)"
  using st
proof (cases rule: run_step_cases)
  case (hazards e)
  then show ?thesis using same by (simp add: run_step_def)
next
  case (event hz)
  with ag have "draw (m_env m2) (event_label i) (Discrete hz) =
      draw (m_env m) (event_label i) (Discrete hz)"
    by (simp add: agrees_def)
  with event show ?thesis using same by (simp add: run_step_def env_bind_eq)
next
  case (time hz tr s)
  then have "trace (m_env m') = trace (step_env (m_env m) i hz)"
    by (simp add: step_env_def)
  from agrees_step [OF this ag] time show ?thesis
    using same by (simp add: run_step_def env_bind_eq)
next
  case (transition hz tr dt h' e)
  then have "trace (m_env m') = trace (step_env (m_env m) i hz)"
    by (simp add: step_env_def)
  from agrees_step [OF this ag] transition show ?thesis
    using same by (simp add: run_step_def env_bind_eq)
next
  case (append hz tr dt h' e)
  then have "trace (m_env m') = trace (step_env (m_env m) i hz)"
    by (simp add: step_env_def)
  from agrees_step [OF this ag] append show ?thesis
    using same by (simp add: run_step_def env_bind_eq)
next
  case (ok hz tr dt h' s')
  then have "trace (m_env m') = trace (step_env (m_env m) i hz)"
    by (simp add: step_env_def)
  from agrees_step [OF this ag] ok show ?thesis
    using same by (simp add: run_step_def env_bind_eq)
qed

lemma loop_labels_Cons: "loop_labels (i # js) = event_label i # t_label i # loop_labels js"
  by (simp add: loop_labels_def)

lemma loop_labels_Nil [simp]: "loop_labels [] = []"
  by (simp add: loop_labels_def)

lemma run_loop_trace:
  assumes "run_loop theta eco js t m = (m', r)"
  shows "trace (m_env m') = trace (m_env m) @ new_trace m m' \<and>
    draw (m_env m') = draw (m_env m) \<and>
    agrees (m_env m) (new_trace m m') \<and>
    prefix (map fst (new_trace m m')) (loop_labels js) \<and>
    (r = None \<longrightarrow> map fst (new_trace m m') = loop_labels js)"
  using assms
proof (induction js arbitrary: t m)
  case Nil
  then show ?case by auto
next
  case (Cons i js)
  obtain m1 r1 where st: "run_step theta eco i t m = (m1, r1)"
    by (cases "run_step theta eco i t m")
  note tr1 = run_step_trace [OF st]
  show ?case
  proof (cases r1)
    case (Inl e)
    with st Cons.prems have m': "m' = m1" "r = Some e" by auto
    from tr1(4) have "prefix (map fst (new_trace m m1)) ([event_label i, t_label i] @ loop_labels js)"
      by (rule prefix_prefix)
    with tr1(1-3) m' show ?thesis
      by (simp add: loop_labels_Cons)
  next
    case (Inr t1)
    with st Cons.prems have rl: "run_loop theta eco js t1 m1 = (m', r)" by simp
    from Cons.IH [OF rl] have ih: "trace (m_env m') = trace (m_env m1) @ new_trace m1 m'"
      "draw (m_env m') = draw (m_env m1)" "agrees (m_env m1) (new_trace m1 m')"
      "prefix (map fst (new_trace m1 m')) (loop_labels js)"
      "r = None \<longrightarrow> map fst (new_trace m1 m') = loop_labels js"
      by blast+
    from tr1(5) [OF Inr] have lb: "map fst (new_trace m m1) = [event_label i, t_label i]"
      by (auto simp: step_binds_def)
    note nt = new_trace_trans [OF tr1(1) ih(1)]
    have "agrees (m_env m) (new_trace m m')"
      using tr1(3) ih(3) agrees_draw_cong [OF tr1(2)] by (simp add: nt(1))
    moreover have "prefix (map fst (new_trace m m')) (loop_labels (i # js))"
      using ih(4) by (simp add: nt(1) lb loop_labels_Cons)
    moreover have "r = None \<longrightarrow> map fst (new_trace m m') = loop_labels (i # js)"
      using ih(5) by (simp add: nt(1) lb loop_labels_Cons)
    ultimately show ?thesis using nt(2) ih(2) tr1(2) by simp
  qed
qed

lemma run_loop_replay:
  assumes "run_loop theta eco js t m = (m', r)"
    and "m_heap m2 = m_heap m" "m_self m2 = m_self m"
    and "agrees (m_env m2) (new_trace m m')"
  shows "\<exists>m2'. run_loop theta eco js t m2 = (m2', r) \<and> m_heap m2' = m_heap m' \<and>
           m_self m2' = m_self m'"
  using assms
proof (induction js arbitrary: t m m2)
  case Nil
  then show ?case by auto
next
  case (Cons i js)
  obtain m1 r1 where st: "run_step theta eco i t m = (m1, r1)"
    by (cases "run_step theta eco i t m")
  note tr1 = run_step_trace [OF st]
  show ?case
  proof (cases r1)
    case (Inl e)
    with st Cons.prems(1) have m': "m' = m1" "r = Some e" by auto
    from run_step_replay [OF st Cons.prems(2,3)] Cons.prems(4) m'
    obtain m2' where "run_step theta eco i t m2 = (m2', r1)" "m_heap m2' = m_heap m1"
      "m_self m2' = m_self m1" by auto
    with Inl m' show ?thesis by simp
  next
    case (Inr t1)
    with st Cons.prems(1) have rl: "run_loop theta eco js t1 m1 = (m', r)" by simp
    note tl = run_loop_trace [OF rl]
    from tl have t2: "trace (m_env m') = trace (m_env m1) @ new_trace m1 m'" by blast
    note nt = new_trace_trans [OF tr1(1) t2]
    from Cons.prems(4) have ag: "agrees (m_env m2) (new_trace m m1)"
      "agrees (m_env m2) (new_trace m1 m')" by (simp_all add: nt(1))
    from run_step_replay [OF st Cons.prems(2,3) ag(1)]
    obtain m2' where s2: "run_step theta eco i t m2 = (m2', r1)" "m_heap m2' = m_heap m1"
      "m_self m2' = m_self m1" "draw (m_env m2') = draw (m_env m2)" by auto
    have "agrees (m_env m2') (new_trace m1 m')"
      using ag(2) agrees_draw_cong [OF s2(4)] by simp
    from Cons.IH [OF rl s2(2,3) this] s2(1) Inr show ?thesis by simp
  qed
qed

subsection \<open>What an iteration leaves alone; the order of the times\<close>

lemma run_step_frame:
  assumes "run_step theta eco i t m = (m', r)"
  shows "length (m_heap m') = length (m_heap m) \<and>
         (\<forall>a. a \<noteq> eco \<longrightarrow> m_heap m' ! a = m_heap m ! a) \<and>
         initial (m_self m') = initial (m_self m) \<and> N (m_self m') = N (m_self m) \<and>
         transitions (m_self m') = transitions (m_self m) \<and>
         select_hyp (m_self m') = select_hyp (m_self m)"
  using assms
proof (cases rule: run_step_cases)
  case (transition hz tr dt h' e)
  with apply_transition_frame [OF transition(4)] show ?thesis by simp
next
  case (append hz tr dt h' e)
  with apply_transition_frame [OF append(4)] show ?thesis by simp
next
  case (ok hz tr dt h' s')
  with apply_transition_frame [OF ok(4)] record_step_Inr [OF ok(5)] show ?thesis by auto
qed simp_all

lemma run_loop_frame:
  assumes "run_loop theta eco js t m = (m', r)"
  shows "length (m_heap m') = length (m_heap m) \<and>
         (\<forall>a. a \<noteq> eco \<longrightarrow> m_heap m' ! a = m_heap m ! a) \<and>
         initial (m_self m') = initial (m_self m) \<and> N (m_self m') = N (m_self m) \<and>
         transitions (m_self m') = transitions (m_self m) \<and>
         select_hyp (m_self m') = select_hyp (m_self m)"
  using assms
proof (induction js arbitrary: t m)
  case Nil
  then show ?case by simp
next
  case (Cons i js)
  obtain m1 r1 where st: "run_step theta eco i t m = (m1, r1)"
    by (cases "run_step theta eco i t m")
  note f1 = run_step_frame [OF st]
  show ?case
  proof (cases r1)
    case (Inl e)
    with st Cons.prems have "m' = m1" by simp
    with f1 show ?thesis by simp
  next
    case (Inr t1)
    with st Cons.prems have "run_loop theta eco js t1 m1 = (m', r)" by simp
    from Cons.IH [OF this] f1 show ?thesis by simp
  qed
qed

lemma waits_nonneg_append [simp]:
  "waits_nonneg (xs @ ys) \<longleftrightarrow> waits_nonneg xs \<and> waits_nonneg ys"
  by (simp add: waits_nonneg_def)

lemma run_step_sorted:
  assumes "run_step theta eco i t m = (m', r)" and "waits_nonneg (new_trace m m')"
    and "sorted (times_list (m_self m))" and "\<forall>u\<in>set (times_list (m_self m)). u \<le> t"
  shows "sorted (times_list (m_self m')) \<and>
         (\<forall>t'. r = Inr t' \<longrightarrow> (\<forall>u\<in>set (times_list (m_self m')). u \<le> t'))"
  using assms(1)
proof (cases rule: run_step_cases)
  case (ok hz tr dt h' s')
  from run_step_trace(5) [OF assms(1) ok(7)] ok(1)
  have "new_trace m m' = step_binds (m_env m) i hz" by simp
  with assms(2) ok(3) have "0 \<le> dt"
    by (simp add: waits_nonneg_def step_binds_def)
  with record_step_Inr [OF ok(5)] ok(6,7) assms(3,4) show ?thesis
    by (fastforce simp: sorted_append)
qed (use assms(3) in simp_all)

lemma run_loop_sorted:
  assumes "run_loop theta eco js t m = (m', r)" and "waits_nonneg (new_trace m m')"
    and "sorted (times_list (m_self m))" and "\<forall>u\<in>set (times_list (m_self m)). u \<le> t"
  shows "sorted (times_list (m_self m'))"
  using assms
proof (induction js arbitrary: t m)
  case Nil
  then show ?case by simp
next
  case (Cons i js)
  obtain m1 r1 where st: "run_step theta eco i t m = (m1, r1)"
    by (cases "run_step theta eco i t m")
  show ?case
  proof (cases r1)
    case (Inl e)
    with st Cons.prems(1) have m': "m' = m1" by simp
    from run_step_sorted [OF st Cons.prems(2) [unfolded m'] Cons.prems(3,4)] m'
    show ?thesis by simp
  next
    case (Inr t1)
    with st Cons.prems(1) have rl: "run_loop theta eco js t1 m1 = (m', r)" by simp
    from run_loop_trace [OF rl]
    have t2: "trace (m_env m') = trace (m_env m1) @ new_trace m1 m'" by blast
    note nt = new_trace_trans(1) [OF run_step_trace(1) [OF st] t2]
    from Cons.prems(2) have w: "waits_nonneg (new_trace m m1)" "waits_nonneg (new_trace m1 m')"
      by (simp_all add: nt)
    note s1 = run_step_sorted [OF st w(1) Cons.prems(3,4)]
    from Cons.IH [OF rl w(2)] s1 Inr show ?thesis by simp
  qed
qed

subsection \<open>The loop and the run\<close>

lemma run_loop_appends:
  assumes "eco < length (m_heap m)" and "run_loop theta eco js t m = (m', r)"
  shows "length (m_heap m') = length (m_heap m) \<and>
         (\<exists>ps qs ts. m_self m' = (m_self m)\<lparr>trajectory_prey := trajectory_prey (m_self m) @ ps,
                 trajectory_pred := trajectory_pred (m_self m) @ qs,
                 times_list := times_list (m_self m) @ ts\<rparr> \<and>
            (\<forall>x\<in>set ps. 0 \<le> x) \<and> (\<forall>y\<in>set qs. 0 \<le> y) \<and>
            length qs = length ps \<and> length ts = length ps \<and>
            (r = None \<longrightarrow> length ps = length js))"
  using assms
proof (induction js arbitrary: t m)
  case Nil
  then show ?case by auto
next
  case (Cons i js)
  obtain m1 r1 where st: "run_step theta eco i t m = (m1, r1)"
    by (cases "run_step theta eco i t m")
  show ?case
  proof (cases r1)
    case (Inl e)
    with st Cons.prems(2) have "m' = m1" "r = Some e" by auto
    with run_step_Inl [OF st [unfolded Inl]] show ?thesis
      by (intro conjI exI [of _ "[]"]) auto
  next
    case (Inr t1)
    from run_step_Inr [OF Cons.prems(1) st [unfolded Inr]]
    obtain e2 x y where m1: "m1 = step_result m eco e2 (max 0 x) (max 0 y) t1"
      by blast
    have len: "eco < length (m_heap m1)"
      using Cons.prems(1) by (simp add: m1 step_result_def)
    have rl: "run_loop theta eco js t1 m1 = (m', r)"
      using Cons.prems(2) st Inr by simp
    from Cons.IH [OF len rl] obtain ps qs ts where
      ih: "length (m_heap m') = length (m_heap m1)"
        "m_self m' = (m_self m1)\<lparr>trajectory_prey := trajectory_prey (m_self m1) @ ps,
                 trajectory_pred := trajectory_pred (m_self m1) @ qs,
                 times_list := times_list (m_self m1) @ ts\<rparr>"
        "\<forall>x\<in>set ps. 0 \<le> x" "\<forall>y\<in>set qs. 0 \<le> y"
        "length qs = length ps" "length ts = length ps" "r = None \<longrightarrow> length ps = length js"
      by blast
    have "m_self m' = (m_self m)\<lparr>trajectory_prey := trajectory_prey (m_self m) @ (max 0 x # ps),
                 trajectory_pred := trajectory_pred (m_self m) @ (max 0 y # qs),
                 times_list := times_list (m_self m) @ (t1 # ts)\<rparr>"
      by (simp add: ih(2) m1 step_result_def)
    moreover have "length (m_heap m') = length (m_heap m)"
      by (simp add: ih(1) m1 step_result_def)
    ultimately show ?thesis
      using ih(3-7)
      by (intro conjI exI [of _ "max 0 x # ps"] exI [of _ "max 0 y # qs"] exI [of _ "t1 # ts"])
        auto
  qed
qed

lemma run_unfold:
  "run m =
     (case lookup_val theta_hypotheses
             (fst (env_bind (m_env m) ''theta'' (theta_prior (select_hyp (m_self m))))) of
        None \<Rightarrow> (pre_loop m, Some KeyError)
      | Some theta \<Rightarrow>
          (case times_list (m_self m) of
             [] \<Rightarrow> (pre_loop m, Some IndexError)
           | t # ts \<Rightarrow> run_loop theta (length (m_heap m)) [1..<nat (N (m_self m))] t (pre_loop m)))"
  by (auto simp: run_def pre_loop_def Let_def split_beta split: option.splits list.splits)

lemma run_appends:
  assumes "run m = (m', r)"
  shows "\<exists>ps qs ts. m_self m' = (m_self m)\<lparr>trajectory_prey := trajectory_prey (m_self m) @ ps,
                 trajectory_pred := trajectory_pred (m_self m) @ qs,
                 times_list := times_list (m_self m) @ ts\<rparr> \<and>
            (\<forall>x\<in>set ps. 0 \<le> x) \<and> (\<forall>y\<in>set qs. 0 \<le> y) \<and>
            length qs = length ps \<and> length ts = length ps \<and>
            (r = None \<longrightarrow> length ps = nat (N (m_self m)) - 1)"
proof (cases "lookup_val theta_hypotheses
             (fst (env_bind (m_env m) ''theta'' (theta_prior (select_hyp (m_self m)))))")
  case None
  with assms have "m' = pre_loop m" "r \<noteq> None" by (auto simp: run_unfold)
  then show ?thesis by (intro exI [of _ "[]"]) (auto simp: pre_loop_def)
next
  case (Some theta)
  show ?thesis
  proof (cases "times_list (m_self m)")
    case Nil
    with Some assms have "m' = pre_loop m" "r \<noteq> None" by (auto simp: run_unfold)
    then show ?thesis by (intro exI [of _ "[]"]) (auto simp: pre_loop_def)
  next
    case (Cons t ts)
    with Some assms
    have rl: "run_loop theta (length (m_heap m)) [1..<nat (N (m_self m))] t (pre_loop m) = (m', r)"
      by (simp add: run_unfold)
    have len: "length (m_heap m) < length (m_heap (pre_loop m))"
      by (simp add: pre_loop_def)
    from run_loop_appends [OF len rl] show ?thesis
      by (simp add: pre_loop_def)
  qed
qed

subsection \<open>The trace of a run, and replaying it\<close>

lemma pre_loop_simps [simp]:
  "m_heap (pre_loop m) = m_heap m @ [m_heap m ! initial (m_self m)]"
  "m_self (pre_loop m) = m_self m"
  "m_env (pre_loop m) = bound (m_env m) ''theta'' (theta_prior (select_hyp (m_self m)))"
  by (simp_all add: pre_loop_def env_bind_eq)

lemma run_unfold_draw:
  "run m =
     (case lookup_val theta_hypotheses (draw (m_env m) ''theta'' (theta_prior (select_hyp (m_self m)))) of
        None \<Rightarrow> (pre_loop m, Some KeyError)
      | Some theta \<Rightarrow>
          (case times_list (m_self m) of
             [] \<Rightarrow> (pre_loop m, Some IndexError)
           | t # ts \<Rightarrow> run_loop theta (length (m_heap m)) [1..<nat (N (m_self m))] t (pre_loop m)))"
  by (simp add: run_unfold env_bind_eq)

lemma new_trace_pre_loop:
  "new_trace m (pre_loop m) =
     [(''theta'', theta_prior (select_hyp (m_self m)),
       draw (m_env m) ''theta'' (theta_prior (select_hyp (m_self m))),
       map_of (evidence (m_env m)) ''theta'' \<noteq> None)]"
  by (simp add: new_trace_def trace_bound)

lemma run_trace_conj:
  assumes "run m = (m', r)"
  shows "trace (m_env m') = trace (m_env m) @ new_trace m m' \<and>
    draw (m_env m') = draw (m_env m) \<and>
    agrees (m_env m) (new_trace m m') \<and>
    prefix (map fst (new_trace m m')) (run_labels (N (m_self m))) \<and>
    (r = None \<longrightarrow> map fst (new_trace m m') = run_labels (N (m_self m))) \<and>
    new_trace m m' = new_trace m (pre_loop m) @ new_trace (pre_loop m) m'"
proof -
  have p0: "trace (m_env (pre_loop m)) = trace (m_env m) @ new_trace m (pre_loop m)"
    by (simp add: new_trace_pre_loop trace_bound)
  have ag0: "agrees (m_env m) (new_trace m (pre_loop m))"
    by (simp add: new_trace_pre_loop agrees_def)
  have lb0: "map fst (new_trace m (pre_loop m)) = [''theta'']"
    by (simp add: new_trace_pre_loop)
  have stop: ?thesis if "m' = pre_loop m" "r \<noteq> None"
    using that p0 ag0 lb0 by (auto simp: run_labels_def)
  show ?thesis
  proof (cases "lookup_val theta_hypotheses
      (draw (m_env m) ''theta'' (theta_prior (select_hyp (m_self m))))")
    case None
    with assms show ?thesis by (intro stop) (auto simp: run_unfold_draw)
  next
    case (Some theta)
    show ?thesis
    proof (cases "times_list (m_self m)")
      case Nil
      with Some assms show ?thesis by (intro stop) (auto simp: run_unfold_draw)
    next
      case (Cons t ts)
      with Some assms
      have rl: "run_loop theta (length (m_heap m)) [1..<nat (N (m_self m))] t (pre_loop m) = (m', r)"
        by (simp add: run_unfold_draw)
      from run_loop_trace [OF rl] have tl:
        "trace (m_env m') = trace (m_env (pre_loop m)) @ new_trace (pre_loop m) m'"
        "draw (m_env m') = draw (m_env (pre_loop m))"
        "agrees (m_env (pre_loop m)) (new_trace (pre_loop m) m')"
        "prefix (map fst (new_trace (pre_loop m) m')) (loop_labels [1..<nat (N (m_self m))])"
        "r = None \<longrightarrow> map fst (new_trace (pre_loop m) m') = loop_labels [1..<nat (N (m_self m))]"
        by blast+
      note nt = new_trace_trans [OF p0 tl(1)]
      have "agrees (m_env (pre_loop m)) = agrees (m_env m)"
        by (rule ext) (simp add: agrees_def)
      with tl(3) ag0 have "agrees (m_env m) (new_trace m m')"
        by (simp add: nt(1))
      with nt tl(2,4,5) lb0 show ?thesis
        by (simp add: run_labels_def)
    qed
  qed
qed

lemma run_trace:
  assumes "run m = (m', r)"
  shows "trace (m_env m') = trace (m_env m) @ new_trace m m'"
    and "draw (m_env m') = draw (m_env m)"
    and "agrees (m_env m) (new_trace m m')"
    and "prefix (map fst (new_trace m m')) (run_labels (N (m_self m)))"
    and "r = None \<Longrightarrow> map fst (new_trace m m') = run_labels (N (m_self m))"
    and "new_trace m m' = new_trace m (pre_loop m) @ new_trace (pre_loop m) m'"
  using run_trace_conj [OF assms] by blast+

lemma run_replay:
  assumes "run m = (m', r)"
    and "m_heap m2 = m_heap m" "m_self m2 = m_self m"
    and "agrees (m_env m2) (new_trace m m')"
  shows "\<exists>m2'. run m2 = (m2', r) \<and> m_heap m2' = m_heap m' \<and> m_self m2' = m_self m'"
proof -
  note nt = run_trace(6) [OF assms(1)]
  with assms(4) have ag: "agrees (m_env m2) (new_trace m (pre_loop m))"
    "agrees (m_env m2) (new_trace (pre_loop m) m')" by simp_all
  from ag(1) have d0: "draw (m_env m2) ''theta'' (theta_prior (select_hyp (m_self m))) =
      draw (m_env m) ''theta'' (theta_prior (select_hyp (m_self m)))"
    by (simp add: new_trace_pre_loop agrees_def)
  have stop: ?thesis if "m' = pre_loop m" "run m2 = (pre_loop m2, r)"
    using that assms(2,3) by simp
  show ?thesis
  proof (cases "lookup_val theta_hypotheses
      (draw (m_env m) ''theta'' (theta_prior (select_hyp (m_self m))))")
    case None
    with assms(1-3) d0 show ?thesis by (intro stop) (auto simp: run_unfold_draw)
  next
    case (Some theta)
    show ?thesis
    proof (cases "times_list (m_self m)")
      case Nil
      with Some assms(1-3) d0 show ?thesis by (intro stop) (auto simp: run_unfold_draw)
    next
      case (Cons t ts)
      with Some assms(1)
      have rl: "run_loop theta (length (m_heap m)) [1..<nat (N (m_self m))] t (pre_loop m) = (m', r)"
        by (simp add: run_unfold_draw)
      have "agrees (m_env (pre_loop m2)) = agrees (m_env m2)"
        by (rule ext) (simp add: agrees_def)
      with ag(2) have ag2: "agrees (m_env (pre_loop m2)) (new_trace (pre_loop m) m')" by simp
      have same: "m_heap (pre_loop m2) = m_heap (pre_loop m)" "m_self (pre_loop m2) = m_self (pre_loop m)"
        using assms(2,3) by simp_all
      from run_loop_replay [OF rl same ag2] obtain m2' where
        "run_loop theta (length (m_heap m)) [1..<nat (N (m_self m))] t (pre_loop m2) = (m2', r)"
        "m_heap m2' = m_heap m'" "m_self m2' = m_self m'" by blast
      with Some Cons d0 assms(2,3) show ?thesis
        by (simp add: run_unfold_draw)
    qed
  qed
qed

lemma set_loop_labels: "set (loop_labels js) = event_label ` set js \<union> t_label ` set js"
  by (induction js) (auto simp: loop_labels_Cons)

lemma distinct_loop_labels: "distinct js \<Longrightarrow> distinct (loop_labels js)"
  by (induction js) (auto simp: loop_labels_Cons set_loop_labels)

lemma distinct_run_labels: "distinct (run_labels n)"
  by (auto simp: run_labels_def distinct_loop_labels set_loop_labels)

lemma agrees_forced:
  assumes "agrees e1 es"
    and "\<forall>l\<in>fst ` set es. \<exists>v. map_of (evidence e1) l = Some v \<and> map_of (evidence e2) l = Some v"
  shows "agrees e2 es"
  using assms by (fastforce simp: agrees_def list_all_iff draw_def)

lemma agrees_trace_value:
  assumes "distinct (map fst es)"
    and "evidence e2 = map (\<lambda>(l, d, v, ob). (l, v)) es"
  shows "agrees e2 es"
proof -
  have "map fst (evidence e2) = map fst es"
    by (simp add: assms(2) case_prod_beta comp_def)
  with assms(1) have dist: "distinct (map fst (evidence e2))" by simp
  have "draw e2 l d = v" if "(l, d, v, ob) \<in> set es" for l d v ob
  proof -
    from that have "(l, v) \<in> set (evidence e2)"
      by (force simp: assms(2))
    with dist have "map_of (evidence e2) l = Some v" by simp
    then show ?thesis by (simp add: draw_def)
  qed
  then show ?thesis by (auto simp: agrees_def list_all_iff)
qed

lemma run_frame:
  assumes "run m = (m', r)"
  shows "length (m_heap m') = Suc (length (m_heap m))"
    and "a < length (m_heap m) \<Longrightarrow> m_heap m' ! a = m_heap m ! a"
    and "initial (m_self m') = initial (m_self m)" and "N (m_self m') = N (m_self m)"
    and "transitions (m_self m') = transitions (m_self m)"
    and "select_hyp (m_self m') = select_hyp (m_self m)"
proof -
  have "length (m_heap m') = Suc (length (m_heap m)) \<and>
    (\<forall>a<length (m_heap m). m_heap m' ! a = m_heap m ! a) \<and>
    initial (m_self m') = initial (m_self m) \<and> N (m_self m') = N (m_self m) \<and>
    transitions (m_self m') = transitions (m_self m) \<and>
    select_hyp (m_self m') = select_hyp (m_self m)"
  proof (cases "lookup_val theta_hypotheses
      (draw (m_env m) ''theta'' (theta_prior (select_hyp (m_self m))))")
    case None
    with assms have "m' = pre_loop m" by (auto simp: run_unfold_draw)
    then show ?thesis by (simp add: nth_append)
  next
    case (Some theta)
    show ?thesis
    proof (cases "times_list (m_self m)")
      case Nil
      with Some assms have "m' = pre_loop m" by (auto simp: run_unfold_draw)
      then show ?thesis by (simp add: nth_append)
    next
      case (Cons t ts)
      with Some assms
      have rl: "run_loop theta (length (m_heap m)) [1..<nat (N (m_self m))] t (pre_loop m) = (m', r)"
        by (simp add: run_unfold_draw)
      from run_loop_frame [OF rl] show ?thesis by (simp add: nth_append)
    qed
  qed
  then show "length (m_heap m') = Suc (length (m_heap m))"
    and "a < length (m_heap m) \<Longrightarrow> m_heap m' ! a = m_heap m ! a"
    and "initial (m_self m') = initial (m_self m)" and "N (m_self m') = N (m_self m)"
    and "transitions (m_self m') = transitions (m_self m)"
    and "select_hyp (m_self m') = select_hyp (m_self m)"
    by blast+
qed

lemma LV_init_Inr:
  assumes "LV_init h trs a n sel t0 = Inr s"
  shows "\<exists>x y. map_of (h ! a) ''prey'' = Some x \<and> map_of (h ! a) ''pred'' = Some y \<and>
     s = \<lparr>transitions = trs, select_hyp = sel, initial = a, times_list = [t0],
          trajectory_prey = [x], trajectory_pred = [y], N = n\<rparr>"
  using assms by (auto simp: LV_init_def split: option.splits)

lemma run_sorted:
  assumes "run m = (m', r)" and "waits_nonneg (new_trace m m')"
    and "\<exists>t0. times_list (m_self m) = [t0]"
  shows "sorted (times_list (m_self m'))"
proof -
  from assms(3) obtain t0 where t0: "times_list (m_self m) = [t0]" by blast
  show ?thesis
  proof (cases "lookup_val theta_hypotheses
      (draw (m_env m) ''theta'' (theta_prior (select_hyp (m_self m))))")
    case None
    with assms(1) have "m' = pre_loop m" by (auto simp: run_unfold_draw)
    with t0 show ?thesis by simp
  next
    case (Some theta)
    with assms(1) t0
    have rl: "run_loop theta (length (m_heap m)) [1..<nat (N (m_self m))] t0 (pre_loop m) = (m', r)"
      by (simp add: run_unfold_draw)
    from assms(2) have "waits_nonneg (new_trace (pre_loop m) m')"
      by (simp add: run_trace(6) [OF assms(1)])
    from run_loop_sorted [OF rl this] t0 show ?thesis by simp
  qed
qed

subsection \<open>Runs that return\<close>

lemma get_hazards_Inr:
  assumes "get_hazards ecology theta = Inr hz"
  shows "\<exists>x y. map_of ecology ''prey'' = Some x \<and> map_of ecology ''pred'' = Some y"
  using assms by (auto simp: get_hazards_def split: option.splits sum.splits)

lemma get_hazards_small:
  assumes "map_of ecology ''prey'' = Some x" and "map_of ecology ''pred'' = Some y"
    and "map_of theta ''spawn_prey'' = Some a" and "map_of theta ''prey2pred'' = Some b"
    and "map_of theta ''pred_dies'' = Some c"
    and "\<bar>x\<bar> < 2 ^ 1023" and "\<bar>y\<bar> < 2 ^ 1023"
  shows "get_hazards ecology theta =
           Inr [(''spawn_prey'', fmul a (Fin (real_of_int x))),
                (''prey2pred'', fmul (fmul b (Fin (real_of_int x))) (Fin (real_of_int y))),
                (''pred_dies'', fmul c (Fin (real_of_int y)))]"
  using assms by (simp add: get_hazards_def py_mul_small)




lemma well_typed_draws_cong:
  "draw e' = draw e \<Longrightarrow> well_typed_draws e' trs sel = well_typed_draws e trs sel"
  by (simp add: well_typed_draws_def)






subsection \<open>The choices of a run that returns\<close>

lemma get_hazards_counts:
  assumes "map_of ecology ''prey'' = Some x" and "map_of ecology ''pred'' = Some y"
  shows "get_hazards ecology theta = get_hazards [(''prey'', x), (''pred'', y)] theta"
  using assms by (simp add: get_hazards_def split: option.splits sum.splits)

lemma map_label_dist_step_binds:
  "map label_dist (step_binds e i hz) =
     [(event_label i, Discrete hz), (t_label i, Exponential (py_sum (map snd hz)))]"
  by (simp add: step_binds_def label_dist_def)

lemma run_loop_binds:
  assumes "run_loop theta eco js t m = (m', None)" and "eco < length (m_heap m)"
    and "map_of (m_heap m ! eco) ''prey'' = Some x" and "map_of (m_heap m ! eco) ''pred'' = Some y"
  shows "\<exists>ps qs. trajectory_prey (m_self m') = trajectory_prey (m_self m) @ ps \<and>
           trajectory_pred (m_self m') = trajectory_pred (m_self m) @ qs \<and>
           map label_dist (new_trace m m') = expected_binds theta js (x # ps) (y # qs)"
  using assms
proof (induction js arbitrary: t m x y)
  case Nil
  then show ?case by (intro exI [of _ "[]"]) simp
next
  case (Cons i js)
  obtain m1 r1 where st: "run_step theta eco i t m = (m1, r1)"
    by (cases "run_step theta eco i t m")
  with Cons.prems(1) obtain t1 where r1: "r1 = Inr t1"
    by (cases r1) auto
  with st Cons.prems(1) have rl: "run_loop theta eco js t1 m1 = (m', None)" by simp
  from run_step_Inr [OF Cons.prems(2) st [unfolded r1]] Cons.prems(3,4)
  obtain hz e2 x1 y1 where hz: "get_hazards (m_heap m ! eco) theta = Inr hz"
    and m1: "m1 = step_result m eco e2 x1 y1 t1"
    by auto
  from run_step_trace(5) [OF st r1] hz
  have nt1: "new_trace m m1 = step_binds (m_env m) i hz" by simp
  have len: "eco < length (m_heap m1)"
    using Cons.prems(2) by (simp add: m1 step_result_def)
  have c1: "map_of (m_heap m1 ! eco) ''prey'' = Some x1" "map_of (m_heap m1 ! eco) ''pred'' = Some y1"
    using Cons.prems(2) by (simp_all add: m1 step_result_def update_conv')
  from Cons.IH [OF rl len c1] obtain ps qs where
    ih: "trajectory_prey (m_self m') = trajectory_prey (m_self m1) @ ps"
      "trajectory_pred (m_self m') = trajectory_pred (m_self m1) @ qs"
      "map label_dist (new_trace m1 m') = expected_binds theta js (x1 # ps) (y1 # qs)"
    by blast
  from run_loop_trace [OF rl] have t2: "trace (m_env m') = trace (m_env m1) @ new_trace m1 m'"
    by blast
  note nt = new_trace_trans(1) [OF run_step_trace(1) [OF st] t2]
  have hz': "get_hazards [(''prey'', x), (''pred'', y)] theta = Inr hz"
    using get_hazards_counts [OF Cons.prems(3,4), of theta] hz by simp
  have "map label_dist (new_trace m m') = expected_binds theta (i # js) (x # x1 # ps) (y # y1 # qs)"
    by (simp add: nt nt1 map_label_dist_step_binds ih(3) hz')
  moreover have "trajectory_prey (m_self m') = trajectory_prey (m_self m) @ (x1 # ps)"
    "trajectory_pred (m_self m') = trajectory_pred (m_self m) @ (y1 # qs)"
    by (simp_all add: ih(1,2) m1 step_result_def)
  ultimately show ?case by blast
qed


lemma pinned_prior:
  assumes "sel \<in> {''H1'', ''H2'', ''H3''}"
  shows "\<exists>ws. theta_prior sel = Discrete ws \<and> probability ws sel = Some 1 \<and>
           (\<forall>k. k \<noteq> sel \<longrightarrow> probability ws k = Some 0)"
proof -
  from assms consider "sel = ''H1''" | "sel = ''H2''" | "sel = ''H3''" by auto
  then show ?thesis
    by cases (simp_all add: theta_prior_def probability_def total_weight_def py_sum_def fl_def
        overflow_threshold_def)
qed


section \<open>The claims\<close>

text \<open>
  C1. Whatever the machine a run starts from (any initial population, any forced or sampled
  draws, any step count \<open>N\<close>) and whether it returns or raises, the run only appends to the
  prey and pred trajectories, and every entry it appends is a non-negative integer: each
  count is clamped with \<open>max(0, _)\<close> before it is recorded. So when the entries present
  before the run (the initial counts) are non-negative, every entry of the output is.
\<close>

theorem run_appends_nonneg:
  "\<exists>ps qs. trajectory_prey (m_self (fst (run m))) = trajectory_prey (m_self m) @ ps \<and>
           trajectory_pred (m_self (fst (run m))) = trajectory_pred (m_self m) @ qs \<and>
           (\<forall>x\<in>set ps. 0 \<le> x) \<and> (\<forall>y\<in>set qs. 0 \<le> y) \<and>
           ((\<forall>x\<in>set (trajectory_prey (m_self m)). 0 \<le> x) \<longrightarrow>
            (\<forall>x\<in>set (trajectory_prey (m_self (fst (run m)))). 0 \<le> x)) \<and>
           ((\<forall>y\<in>set (trajectory_pred (m_self m)). 0 \<le> y) \<longrightarrow>
            (\<forall>y\<in>set (trajectory_pred (m_self (fst (run m)))). 0 \<le> y))"
proof -
  obtain m' r where mr: "run m = (m', r)" by (cases "run m")
  from run_appends [OF mr] mr show ?thesis by auto
qed

text \<open>
  A run of three steps' worth (\<open>N = 3\<close>) from the population \<open>{prey: 2, pred: 1}\<close> in which
  a predator dies twice: the run appends \<open>[2, 2]\<close> and \<open>[0, 0]\<close>.
\<close>

theorem run_appends_nonneg_witness:
  "trajectory_prey (m_self (demo_machine 2 1 3 ''H1'' []
              [(''theta'', Str ''H1''), (''event_1'', Str ''pred_dies''), (''t_1'', Num 0.5),
               (''event_2'', Str ''pred_dies''), (''t_2'', Num 0.25)])) = [2] \<and>
   trajectory_pred (m_self (demo_machine 2 1 3 ''H1'' []
              [(''theta'', Str ''H1''), (''event_1'', Str ''pred_dies''), (''t_1'', Num 0.5),
               (''event_2'', Str ''pred_dies''), (''t_2'', Num 0.25)])) = [1] \<and>
   (\<exists>ps qs. trajectory_prey (m_self (fst (run (demo_machine 2 1 3 ''H1'' []
              [(''theta'', Str ''H1''), (''event_1'', Str ''pred_dies''), (''t_1'', Num 0.5),
               (''event_2'', Str ''pred_dies''), (''t_2'', Num 0.25)])))) = [2] @ ps \<and>
           trajectory_pred (m_self (fst (run (demo_machine 2 1 3 ''H1'' []
              [(''theta'', Str ''H1''), (''event_1'', Str ''pred_dies''), (''t_1'', Num 0.5),
               (''event_2'', Str ''pred_dies''), (''t_2'', Num 0.25)])))) = [1] @ qs \<and>
           ps = [2, 2] \<and> qs = [0, 0] \<and> (\<forall>x\<in>set ps. 0 \<le> x) \<and> (\<forall>y\<in>set qs. 0 \<le> y))"
  using run_appends_nonneg [of "demo_machine 2 1 3 ''H1'' []
              [(''theta'', Str ''H1''), (''event_1'', Str ''pred_dies''), (''t_1'', Num 0.5),
               (''event_2'', Str ''pred_dies''), (''t_2'', Num 0.25)]"]
  by (simp add: run_eval)

text \<open>
  C2, as the code has it. Take counts \<open>0 \<le> x, y < 2 ^ 1023\<close> and finite positive rates
  \<open>a\<close>, \<open>b\<close>, \<open>c\<close> with \<open>b * x < 2 ^ 1023\<close>. Then \<open>get_hazards\<close> returns, and returns
  exactly the mapping of the float products \<open>spawn_prey \<mapsto> a * x\<close>,
  \<open>prey2pred \<mapsto> (b * x) * y\<close>, \<open>pred_dies \<mapsto> c * y\<close>; every hazard is \<open>\<ge> 0\<close> (possibly
  \<open>+inf\<close>); the hazards of \<open>spawn_prey\<close> and \<open>prey2pred\<close> are exactly 0 when there is no
  prey, those of \<open>prey2pred\<close> and \<open>pred_dies\<close> when there is no predator; and when the three
  exact products are below \<open>2 ^ 1023\<close> the hazards are these products.
\<close>

theorem get_hazards_mass_action:
  assumes "map_of ecology ''prey'' = Some x" and "map_of ecology ''pred'' = Some y"
    and "map_of theta ''spawn_prey'' = Some (Fin a)"
    and "map_of theta ''prey2pred'' = Some (Fin b)"
    and "map_of theta ''pred_dies'' = Some (Fin c)"
    and "0 \<le> x" and "0 \<le> y" and "0 < a" and "0 < b" and "0 < c"
    and "x < 2 ^ 1023" and "y < 2 ^ 1023" and "b * real_of_int x < 2 ^ 1023"
  shows "\<exists>hz. get_hazards ecology theta = Inr hz \<and>
           hz = [(''spawn_prey'', fmul (Fin a) (Fin (real_of_int x))),
                 (''prey2pred'', fmul (fmul (Fin b) (Fin (real_of_int x))) (Fin (real_of_int y))),
                 (''pred_dies'', fmul (Fin c) (Fin (real_of_int y)))] \<and>
           (\<forall>kv\<in>set hz. fle (Fin 0) (snd kv)) \<and>
           (x = 0 \<longrightarrow> map_of hz ''spawn_prey'' = Some (Fin 0) \<and>
                      map_of hz ''prey2pred'' = Some (Fin 0)) \<and>
           (y = 0 \<longrightarrow> map_of hz ''prey2pred'' = Some (Fin 0) \<and>
                      map_of hz ''pred_dies'' = Some (Fin 0)) \<and>
           (a * real_of_int x < 2 ^ 1023 \<and> b * real_of_int x * real_of_int y < 2 ^ 1023 \<and>
            c * real_of_int y < 2 ^ 1023 \<longrightarrow>
              hz = [(''spawn_prey'', Fin (a * real_of_int x)),
                    (''prey2pred'', Fin (b * real_of_int x * real_of_int y)),
                    (''pred_dies'', Fin (c * real_of_int y))])"
proof -
  let ?x = "real_of_int x" and ?y = "real_of_int y"
  from assms(6,7,11,12) have small: "\<bar>x\<bar> < 2 ^ 1023" "\<bar>y\<bar> < 2 ^ 1023" by simp_all
  note hz = get_hazards_small [OF assms(1-5) small]
  from assms(6-10) have nn: "0 \<le> a * ?x" "0 \<le> b * ?x" "0 \<le> b * ?x * ?y" "0 \<le> c * ?y"
    by simp_all
  from nn(2) assms(13) have bx: "fl (b * ?x) = Fin (b * ?x)"
    by (simp add: fl_small)
  have pos: "fle (Fin 0) (fmul (Fin a) (Fin ?x))"
    "fle (Fin 0) (fmul (fmul (Fin b) (Fin ?x)) (Fin ?y))"
    "fle (Fin 0) (fmul (Fin c) (Fin ?y))"
    using nn by (simp_all add: bx fl_nonneg)
  have zx: "fmul (Fin a) (Fin ?x) = Fin 0 \<and> fmul (fmul (Fin b) (Fin ?x)) (Fin ?y) = Fin 0"
    if "x = 0"
    using that by simp
  have zy: "fmul (fmul (Fin b) (Fin ?x)) (Fin ?y) = Fin 0 \<and> fmul (Fin c) (Fin ?y) = Fin 0"
    if "y = 0"
    using that by (simp add: bx)
  have ex: "fmul (Fin a) (Fin ?x) = Fin (a * ?x) \<and>
      fmul (fmul (Fin b) (Fin ?x)) (Fin ?y) = Fin (b * ?x * ?y) \<and>
      fmul (Fin c) (Fin ?y) = Fin (c * ?y)"
    if "a * ?x < 2 ^ 1023 \<and> b * ?x * ?y < 2 ^ 1023 \<and> c * ?y < 2 ^ 1023"
    using that nn by (simp add: bx fl_small)
  from pos zx zy ex show ?thesis unfolding hz by simp
qed

text \<open>
  The second hypothesis of the table at \<open>{prey: 0, pred: 5}\<close> and at \<open>{prey: 7, pred: 0}\<close>.
\<close>

theorem get_hazards_mass_action_witness:
  "get_hazards [(''prey'', 0), (''pred'', 5)]
       [(''spawn_prey'', Fin 0.9), (''prey2pred'', Fin 0.004), (''pred_dies'', Fin 0.4)] =
     Inr [(''spawn_prey'', Fin 0), (''prey2pred'', Fin 0), (''pred_dies'', Fin 2)] \<and>
   get_hazards [(''prey'', 7), (''pred'', 0)]
       [(''spawn_prey'', Fin 0.9), (''prey2pred'', Fin 0.004), (''pred_dies'', Fin 0.4)] =
     Inr [(''spawn_prey'', Fin 6.3), (''prey2pred'', Fin 0), (''pred_dies'', Fin 0)]"
proof -
  let ?theta = "[(''spawn_prey'', Fin 0.9), (''prey2pred'', Fin 0.004), (''pred_dies'', Fin 0.4)]"
  have "\<exists>hz. get_hazards [(''prey'', 0), (''pred'', 5)] ?theta = Inr hz \<and>
           hz = [(''spawn_prey'', fmul (Fin 0.9) (Fin (real_of_int 0))),
                 (''prey2pred'', fmul (fmul (Fin 0.004) (Fin (real_of_int 0))) (Fin (real_of_int 5))),
                 (''pred_dies'', fmul (Fin 0.4) (Fin (real_of_int 5)))] \<and>
           (\<forall>kv\<in>set hz. fle (Fin 0) (snd kv)) \<and>
           ((0::int) = 0 \<longrightarrow> map_of hz ''spawn_prey'' = Some (Fin 0) \<and>
                      map_of hz ''prey2pred'' = Some (Fin 0)) \<and>
           ((5::int) = 0 \<longrightarrow> map_of hz ''prey2pred'' = Some (Fin 0) \<and>
                      map_of hz ''pred_dies'' = Some (Fin 0)) \<and>
           (0.9 * real_of_int 0 < 2 ^ 1023 \<and> 0.004 * real_of_int 0 * real_of_int 5 < 2 ^ 1023 \<and>
            0.4 * real_of_int 5 < 2 ^ 1023 \<longrightarrow>
              hz = [(''spawn_prey'', Fin (0.9 * real_of_int 0)),
                    (''prey2pred'', Fin (0.004 * real_of_int 0 * real_of_int 5)),
                    (''pred_dies'', Fin (0.4 * real_of_int 5))])"
    by (rule get_hazards_mass_action) simp_all
  then have one: "get_hazards [(''prey'', 0), (''pred'', 5)] ?theta =
      Inr [(''spawn_prey'', Fin 0), (''prey2pred'', Fin 0), (''pred_dies'', Fin 2)]"
    by simp
  have "\<exists>hz. get_hazards [(''prey'', 7), (''pred'', 0)] ?theta = Inr hz \<and>
           hz = [(''spawn_prey'', fmul (Fin 0.9) (Fin (real_of_int 7))),
                 (''prey2pred'', fmul (fmul (Fin 0.004) (Fin (real_of_int 7))) (Fin (real_of_int 0))),
                 (''pred_dies'', fmul (Fin 0.4) (Fin (real_of_int 0)))] \<and>
           (\<forall>kv\<in>set hz. fle (Fin 0) (snd kv)) \<and>
           ((7::int) = 0 \<longrightarrow> map_of hz ''spawn_prey'' = Some (Fin 0) \<and>
                      map_of hz ''prey2pred'' = Some (Fin 0)) \<and>
           ((0::int) = 0 \<longrightarrow> map_of hz ''prey2pred'' = Some (Fin 0) \<and>
                      map_of hz ''pred_dies'' = Some (Fin 0)) \<and>
           (0.9 * real_of_int 7 < 2 ^ 1023 \<and> 0.004 * real_of_int 7 * real_of_int 0 < 2 ^ 1023 \<and>
            0.4 * real_of_int 0 < 2 ^ 1023 \<longrightarrow>
              hz = [(''spawn_prey'', Fin (0.9 * real_of_int 7)),
                    (''prey2pred'', Fin (0.004 * real_of_int 7 * real_of_int 0)),
                    (''pred_dies'', Fin (0.4 * real_of_int 0))])"
    by (rule get_hazards_mass_action) simp_all
  then have two: "get_hazards [(''prey'', 7), (''pred'', 0)] ?theta =
      Inr [(''spawn_prey'', Fin 6.3), (''prey2pred'', Fin 0), (''pred_dies'', Fin 0)]"
    by simp
  from one two show ?thesis by simp
qed

text \<open>
  C2 as stated (every non-negative count, every positive rate) fails in floating point. With
  the positive rate \<open>prey2pred = 1e308\<close>, 100 prey and no predator, the product
  \<open>1e308 * 100\<close> overflows to \<open>inf\<close> and \<open>inf * 0\<close> is \<open>nan\<close>: the hazard of a reaction
  that lacks a required species is neither 0 nor \<open>\<ge> 0\<close>. With \<open>10 ^ 400\<close> prey and the
  rates of H1, the conversion of the count raises \<open>OverflowError\<close> and no mapping is returned.
\<close>

theorem get_hazards_mass_action_counterexample:
  "get_hazards [(''prey'', 100), (''pred'', 0)]
       [(''spawn_prey'', Fin 1), (''prey2pred'', Fin (10 ^ 308)), (''pred_dies'', Fin 1)] =
     Inr [(''spawn_prey'', Fin 100), (''prey2pred'', NaN), (''pred_dies'', Fin 0)] \<and>
   \<not> fle (Fin 0) NaN \<and> NaN \<noteq> Fin 0 \<and>
   get_hazards [(''prey'', 10 ^ 400), (''pred'', 1)]
       [(''spawn_prey'', Fin 1), (''prey2pred'', Fin 0.005), (''pred_dies'', Fin 0.6)] =
     Inl OverflowError"
  by (simp add: get_hazards_def py_mul_def float_of_int_def fl_def overflow_threshold_def)

text \<open>
  C8. The hypothesis H1 hard-coded in \<open>run\<close> is \<open>spawn_prey = 1\<close>, \<open>prey2pred = 0.005\<close>,
  \<open>pred_dies = 0.6\<close>. For the population \<open>{prey: 50, pred: 100}\<close> the hazards are 50, 25
  and 60 and their sum is 135; the first iteration of a run binds \<open>event_1\<close> to the
  categorical distribution with these weights and \<open>t_1\<close> to the exponential distribution of
  rate 135; the normalised weights are 50/135, 25/135 and 60/135 and the mean waiting time is
  1/135.
\<close>

theorem first_step_hazards_H1:
  "map_of theta_hypotheses ''H1'' =
     Some [(''spawn_prey'', Fin 1), (''prey2pred'', Fin 0.005), (''pred_dies'', Fin 0.6)] \<and>
   get_hazards [(''prey'', 50), (''pred'', 100)]
       [(''spawn_prey'', Fin 1), (''prey2pred'', Fin 0.005), (''pred_dies'', Fin 0.6)] =
     Inr [(''spawn_prey'', Fin 50), (''prey2pred'', Fin 25), (''pred_dies'', Fin 60)] \<and>
   py_sum (map snd [(''spawn_prey'', Fin 50), (''prey2pred'', Fin 25), (''pred_dies'', Fin 60)]) =
     Fin 135 \<and>
   map (\<lambda>(l, d, v, ob). (l, d)) (trace (m_env (fst (run (demo_machine 50 100 2 ''H1'' []
       [(''theta'', Str ''H1''), (''event_1'', Str ''spawn_prey''), (''t_1'', Num 0.01)]))))) =
     [(''theta'', Discrete [(''H1'', Fin 1), (''H2'', Fin 0), (''H3'', Fin 0)]),
      (''event_1'', Discrete [(''spawn_prey'', Fin 50), (''prey2pred'', Fin 25),
         (''pred_dies'', Fin 60)]),
      (''t_1'', Exponential (Fin 135))] \<and>
   probability [(''spawn_prey'', Fin 50), (''prey2pred'', Fin 25), (''pred_dies'', Fin 60)]
     ''spawn_prey'' = Some (50 / 135) \<and>
   probability [(''spawn_prey'', Fin 50), (''prey2pred'', Fin 25), (''pred_dies'', Fin 60)]
     ''prey2pred'' = Some (25 / 135) \<and>
   probability [(''spawn_prey'', Fin 50), (''prey2pred'', Fin 25), (''pred_dies'', Fin 60)]
     ''pred_dies'' = Some (60 / 135) \<and>
   mean_waiting_time (Exponential (Fin 135)) = Some (1 / 135)"
  by (simp add: run_eval probability_def total_weight_def mean_waiting_time_def)

text \<open>
  C9. The clamp is applied to each species on its own after both deltas have been added: a
  transition with deltas \<open>dx\<close>, \<open>dy\<close> is never rejected, and leaves \<open>max 0 (x + dx)\<close> prey
  and \<open>max 0 (y + dy)\<close> predators, so a delta that would take one species below zero is cut
  off while the delta of the other species is applied in full.
\<close>

theorem clamp_per_species:
  assumes "eco < length h" and "map_of (h ! eco) ''prey'' = Some x"
    and "map_of (h ! eco) ''pred'' = Some y"
  shows "\<exists>h'. apply_transition h eco [dx, dy] = (h', None) \<and>
           map_of (h' ! eco) ''prey'' = Some (max 0 (x + dx)) \<and>
           map_of (h' ! eco) ''pred'' = Some (max 0 (y + dy))"
proof -
  have "apply_transition h eco [dx, dy] =
           (h[eco := AList.update ''pred'' (max 0 (y + dy))
                            (AList.update ''prey'' (max 0 (x + dx)) (h ! eco))], None)"
    using assms by (intro apply_transition_Some) (simp_all add: index_def)
  then show ?thesis using assms(1) by (simp add: update_conv')
qed

text \<open>
  Predation (deltas \<open>(-1, +1)\<close>) with no prey and five predators: the prey count stays 0
  and the predators become six. A whole run that draws this event returns normally and
  records the two counts.
\<close>

theorem clamp_per_species_witness:
  "map_of notebook_transitions ''prey2pred'' = Some [- 1, 1] \<and>
   apply_transition [[(''prey'', 0), (''pred'', 5)]] 0 [- 1, 1] =
     ([[(''prey'', 0), (''pred'', 6)]], None) \<and>
   snd (run (demo_machine 0 5 2 ''H1'' []
     [(''theta'', Str ''H1''), (''event_1'', Str ''prey2pred''), (''t_1'', Num 0.5)])) = None \<and>
   trajectory_prey (m_self (fst (run (demo_machine 0 5 2 ''H1'' []
     [(''theta'', Str ''H1''), (''event_1'', Str ''prey2pred''), (''t_1'', Num 0.5)])))) = [0, 0] \<and>
   trajectory_pred (m_self (fst (run (demo_machine 0 5 2 ''H1'' []
     [(''theta'', Str ''H1''), (''event_1'', Str ''prey2pred''), (''t_1'', Num 0.5)])))) = [5, 6]"
proof -
  have "\<exists>h'. apply_transition [[(''prey'', 0), (''pred'', 5)]] 0 [- 1, 1] = (h', None) \<and>
           map_of (h' ! 0) ''prey'' = Some (max 0 (0 + - 1)) \<and>
           map_of (h' ! 0) ''pred'' = Some (max 0 (5 + 1))"
    by (rule clamp_per_species) simp_all
  then show ?thesis
    by (simp add: run_eval)
qed

text \<open>
  C4. The outcome of \<open>run\<close> is a function of the values its labelled choices yield. Take two
  runs from the same heap and the same simulator object (same transitions, initial population,
  \<open>N\<close>, \<open>select_hyp\<close>), each with its own environment. If every label the run can bind
  (\<open>theta\<close>, \<open>event_i\<close>, \<open>t_i\<close> for \<open>1 \<le> i < N\<close>) is forced to the same value in both, the
  two runs leave the same times and the same trajectories and end alike. The same holds when
  the first run starts from a fresh trace and the second is conditioned on the value mapping
  of the first run's whole trace, whatever the samplers are.
\<close>

theorem run_deterministic_given_draws:
  assumes "run \<lparr>m_heap = h, m_self = s, m_env = e1\<rparr> = (m1, r1)"
    and "run \<lparr>m_heap = h, m_self = s, m_env = e2\<rparr> = (m2, r2)"
  shows "((\<forall>l\<in>set (run_labels (N s)).
             \<exists>v. map_of (evidence e1) l = Some v \<and> map_of (evidence e2) l = Some v) \<longrightarrow>
          times_list (m_self m2) = times_list (m_self m1) \<and>
          trajectory_prey (m_self m2) = trajectory_prey (m_self m1) \<and>
          trajectory_pred (m_self m2) = trajectory_pred (m_self m1) \<and> r2 = r1) \<and>
         (trace e1 = [] \<and> evidence e2 = trace_value (m_env m1) \<longrightarrow>
          times_list (m_self m2) = times_list (m_self m1) \<and>
          trajectory_prey (m_self m2) = trajectory_prey (m_self m1) \<and>
          trajectory_pred (m_self m2) = trajectory_pred (m_self m1) \<and> r2 = r1)"
proof -
  let ?M1 = "\<lparr>m_heap = h, m_self = s, m_env = e1\<rparr>"
  let ?M2 = "\<lparr>m_heap = h, m_self = s, m_env = e2\<rparr>"
  have tr: "trace (m_env m1) = trace e1 @ new_trace ?M1 m1"
    and ag: "agrees e1 (new_trace ?M1 m1)"
    and pre: "prefix (map fst (new_trace ?M1 m1)) (run_labels (N s))"
    using run_trace(1,3,4) [OF assms(1)] by simp_all
  have same: "times_list (m_self m2) = times_list (m_self m1) \<and>
          trajectory_prey (m_self m2) = trajectory_prey (m_self m1) \<and>
          trajectory_pred (m_self m2) = trajectory_pred (m_self m1) \<and> r2 = r1"
    if "agrees e2 (new_trace ?M1 m1)"
  proof -
    from run_replay [OF assms(1), of ?M2] that assms(2) show ?thesis by auto
  qed
  have "agrees e2 (new_trace ?M1 m1)"
    if "\<forall>l\<in>set (run_labels (N s)).
             \<exists>v. map_of (evidence e1) l = Some v \<and> map_of (evidence e2) l = Some v"
  proof (rule agrees_forced [OF ag])
    from pre have "set (map fst (new_trace ?M1 m1)) \<subseteq> set (run_labels (N s))"
      by (rule set_mono_prefix)
    with that show "\<forall>l\<in>fst ` set (new_trace ?M1 m1).
       \<exists>v. map_of (evidence e1) l = Some v \<and> map_of (evidence e2) l = Some v"
      by auto
  qed
  moreover have "agrees e2 (new_trace ?M1 m1)"
    if "trace e1 = [] \<and> evidence e2 = trace_value (m_env m1)"
  proof (rule agrees_trace_value)
    from pre distinct_run_labels [of "N s"] show "distinct (map fst (new_trace ?M1 m1))"
      by (auto simp: prefix_def)
    from that tr show "evidence e2 = map (\<lambda>(l, d, v, ob). (l, v)) (new_trace ?M1 m1)"
      by (simp add: trace_value_def)
  qed
  ultimately show ?thesis using same by blast
qed

theorem run_deterministic_given_draws_witness:
  "times_list (m_self (fst (run (demo_machine 50 100 3 ''H1''
      [(''t_2'', Num 0.25), (''event_2'', Str ''prey2pred''), (''t_1'', Num 0.5),
       (''event_1'', Str ''spawn_prey''), (''theta'', Str ''H1''), (''t_3'', Num 7)]
      [(''theta'', Str ''H3'')])))) =
   times_list (m_self (fst (run (demo_machine 50 100 3 ''H1''
      [(''theta'', Str ''H1''), (''event_1'', Str ''spawn_prey''), (''t_1'', Num 0.5),
       (''event_2'', Str ''prey2pred''), (''t_2'', Num 0.25)] [])))) \<and>
   trajectory_prey (m_self (fst (run (demo_machine 50 100 3 ''H1''
      [(''t_2'', Num 0.25), (''event_2'', Str ''prey2pred''), (''t_1'', Num 0.5),
       (''event_1'', Str ''spawn_prey''), (''theta'', Str ''H1''), (''t_3'', Num 7)]
      [(''theta'', Str ''H3'')])))) =
   trajectory_prey (m_self (fst (run (demo_machine 50 100 3 ''H1''
      [(''theta'', Str ''H1''), (''event_1'', Str ''spawn_prey''), (''t_1'', Num 0.5),
       (''event_2'', Str ''prey2pred''), (''t_2'', Num 0.25)] [])))) \<and>
   trajectory_prey (m_self (fst (run (demo_machine 50 100 3 ''H1''
      [(''theta'', Str ''H1''), (''event_1'', Str ''spawn_prey''), (''t_1'', Num 0.5),
       (''event_2'', Str ''prey2pred''), (''t_2'', Num 0.25)] [])))) = [50, 51, 50] \<and>
   trace_value (m_env (fst (run (demo_machine 50 100 3 ''none'' []
      [(''theta'', Str ''H2''), (''event_1'', Str ''pred_dies''), (''t_1'', Num 0.125),
       (''event_2'', Str ''prey2pred''), (''t_2'', Num 2)])))) =
     [(''theta'', Str ''H2''), (''event_1'', Str ''pred_dies''), (''t_1'', Num 0.125),
      (''event_2'', Str ''prey2pred''), (''t_2'', Num 2)] \<and>
   trajectory_pred (m_self (fst (run \<lparr>m_heap = [[(''prey'', 50), (''pred'', 100)]],
      m_self = demo_sim 50 100 3 ''none'',
      m_env = replay_env (demo_machine 50 100 3 ''none'' []
        [(''theta'', Str ''H2''), (''event_1'', Str ''pred_dies''), (''t_1'', Num 0.125),
         (''event_2'', Str ''prey2pred''), (''t_2'', Num 2)])\<rparr>))) =
   trajectory_pred (m_self (fst (run (demo_machine 50 100 3 ''none'' []
      [(''theta'', Str ''H2''), (''event_1'', Str ''pred_dies''), (''t_1'', Num 0.125),
       (''event_2'', Str ''prey2pred''), (''t_2'', Num 2)])))) \<and>
   trajectory_pred (m_self (fst (run (demo_machine 50 100 3 ''none'' []
      [(''theta'', Str ''H2''), (''event_1'', Str ''pred_dies''), (''t_1'', Num 0.125),
       (''event_2'', Str ''prey2pred''), (''t_2'', Num 2)])))) = [100, 99, 100]"
proof -
  let ?h = "[[(''prey'', 50), (''pred'', 100 :: int)]]"
  let ?ea1 = "demo_env [(''theta'', Str ''H1''), (''event_1'', Str ''spawn_prey''), (''t_1'', Num 0.5),
       (''event_2'', Str ''prey2pred''), (''t_2'', Num 0.25)] []"
  let ?ea2 = "demo_env [(''t_2'', Num 0.25), (''event_2'', Str ''prey2pred''), (''t_1'', Num 0.5),
       (''event_1'', Str ''spawn_prey''), (''theta'', Str ''H1''), (''t_3'', Num 7)]
      [(''theta'', Str ''H3'')]"
  let ?s = "demo_sim 50 100 3 ''H1''"
  let ?Ma1 = "\<lparr>m_heap = ?h, m_self = ?s, m_env = ?ea1\<rparr>"
  let ?Ma2 = "\<lparr>m_heap = ?h, m_self = ?s, m_env = ?ea2\<rparr>"
  have forced: "\<forall>l\<in>set (run_labels (N ?s)).
             \<exists>v. map_of (evidence ?ea1) l = Some v \<and> map_of (evidence ?ea2) l = Some v"
    by (simp add: run_labels_def loop_labels_def upt_rec event_label_def t_label_def
        format_nat.simps digit_char_def demo_sim_def demo_env_def)
  have a: "times_list (m_self (fst (run ?Ma2))) = times_list (m_self (fst (run ?Ma1))) \<and>
          trajectory_prey (m_self (fst (run ?Ma2))) = trajectory_prey (m_self (fst (run ?Ma1)))"
    using run_deterministic_given_draws [of ?h ?s ?ea1 "fst (run ?Ma1)" "snd (run ?Ma1)"
        ?ea2 "fst (run ?Ma2)" "snd (run ?Ma2)"] forced
    by simp
  let ?draws = "[(''theta'', Str ''H2''), (''event_1'', Str ''pred_dies''), (''t_1'', Num 0.125),
       (''event_2'', Str ''prey2pred''), (''t_2'', Num 2)]"
  let ?s' = "demo_sim 50 100 3 ''none''"
  let ?eb1 = "demo_env [] ?draws"
  let ?Mb1 = "\<lparr>m_heap = ?h, m_self = ?s', m_env = ?eb1\<rparr>"
  let ?eb2 = "replay_env ?Mb1"
  let ?Mb2 = "\<lparr>m_heap = ?h, m_self = ?s', m_env = ?eb2\<rparr>"
  have fresh: "trace ?eb1 = [] \<and> evidence ?eb2 = trace_value (m_env (fst (run ?Mb1)))"
    by (simp add: demo_env_def replay_env_def)
  have b: "trajectory_pred (m_self (fst (run ?Mb2))) = trajectory_pred (m_self (fst (run ?Mb1)))"
    using run_deterministic_given_draws [of ?h ?s' ?eb1 "fst (run ?Mb1)" "snd (run ?Mb1)"
        ?eb2 "fst (run ?Mb2)" "snd (run ?Mb2)"] fresh
    by simp
  have c: "trajectory_prey (m_self (fst (run ?Ma1))) = [50, 51, 50]"
    "trace_value (m_env (fst (run ?Mb1))) = ?draws"
    "trajectory_pred (m_self (fst (run ?Mb1))) = [100, 99, 100]"
    by (simp_all add: run_eval trace_value_def)
  from a b c show ?thesis
    by (simp add: demo_machine_def)
qed

text \<open>
  C10. A run never writes to the dictionary the caller passed to the constructor: the
  working state is a deep copy in a new heap cell. After any run, returned or raised, of a
  simulator built by \<open>__init__\<close> from the dictionary at address \<open>a\<close>, the field \<open>initial\<close>
  still refers to \<open>a\<close>, the dictionary at \<open>a\<close> is what it was, and so is every other object
  that existed before the run.
\<close>

theorem run_leaves_initial_unchanged:
  assumes "LV_init h trs a n sel t0 = Inr s" and "a < length h"
    and "run \<lparr>m_heap = h, m_self = s, m_env = e\<rparr> = (m', r)"
  shows "initial (m_self m') = a \<and> m_heap m' ! a = h ! a \<and> take (length h) (m_heap m') = h"
proof -
  from LV_init_Inr [OF assms(1)] have a: "initial s = a" by auto
  note fr = run_frame [OF assms(3)]
  have "take (length h) (m_heap m') = h"
    using fr(1,2) by (intro nth_equalityI) simp_all
  with fr(2) [of a] fr(3) a assms(2) show ?thesis by simp
qed


theorem run_leaves_initial_unchanged_witness:
  "LV_init [[(''prey'', 50), (''pred'', 100)]] notebook_transitions 0 2 ''H1'' 0 =
     Inr (demo_sim 50 100 2 ''H1'') \<and>
   initial (m_self (fst (run (demo_machine 50 100 2 ''H1'' []
     [(''theta'', Str ''H1''), (''event_1'', Str ''prey2pred''), (''t_1'', Num 0.5)])))) = 0 \<and>
   m_heap (fst (run (demo_machine 50 100 2 ''H1'' []
     [(''theta'', Str ''H1''), (''event_1'', Str ''prey2pred''), (''t_1'', Num 0.5)]))) =
     [[(''prey'', 50), (''pred'', 100)], [(''prey'', 49), (''pred'', 101)]]"
proof -
  let ?h = "[[(''prey'', 50), (''pred'', 100 :: int)]]"
  let ?e = "demo_env [] [(''theta'', Str ''H1''), (''event_1'', Str ''prey2pred''), (''t_1'', Num 0.5)]"
  let ?M = "\<lparr>m_heap = ?h, m_self = demo_sim 50 100 2 ''H1'', m_env = ?e\<rparr>"
  have i: "LV_init ?h notebook_transitions 0 2 ''H1'' 0 = Inr (demo_sim 50 100 2 ''H1'')"
    by (rule demo_sim_init)
  have "initial (m_self (fst (run ?M))) = 0 \<and> m_heap (fst (run ?M)) ! 0 = ?h ! 0 \<and>
      take (length ?h) (m_heap (fst (run ?M))) = ?h"
    by (rule run_leaves_initial_unchanged [OF i, where r = "snd (run ?M)"]) simp_all
  moreover have "m_heap (fst (run ?M)) =
     [[(''prey'', 50), (''pred'', 100)], [(''prey'', 49), (''pred'', 101)]]"
    by (simp add: run_eval)
  ultimately show ?thesis using i by (simp add: demo_machine_def)
qed

text \<open>
  C5, as the code has it. A run that returns, on a simulator fresh from \<open>__init__\<close> with step
  count \<open>N\<close>, leaves \<open>max(N, 1)\<close> entries in the time sequence and in each of the two count
  sequences: \<open>N\<close> entries when \<open>N \<ge> 1\<close>, and the single initial entry when \<open>N \<le> 0\<close>. When
  every waiting time the run has bound (the value of each of its exponential choices) is
  non-negative, the time sequence is non-decreasing.
\<close>

theorem run_output_lengths:
  assumes "LV_init h trs a n sel t0 = Inr s"
    and "run \<lparr>m_heap = h, m_self = s, m_env = e\<rparr> = (m', None)"
  shows "length (times_list (m_self m')) = nat (max 1 n) \<and>
         length (trajectory_prey (m_self m')) = nat (max 1 n) \<and>
         length (trajectory_pred (m_self m')) = nat (max 1 n) \<and>
         (waits_nonneg (new_trace \<lparr>m_heap = h, m_self = s, m_env = e\<rparr> m') \<longrightarrow>
            sorted (times_list (m_self m')))"
proof -
  from LV_init_Inr [OF assms(1)] obtain x y where
    s: "s = \<lparr>transitions = trs, select_hyp = sel, initial = a, times_list = [t0],
          trajectory_prey = [x], trajectory_pred = [y], N = n\<rparr>" by blast
  from run_appends [OF assms(2)] obtain ps qs ts where
    ap: "m_self m' = s\<lparr>trajectory_prey := trajectory_prey s @ ps,
                 trajectory_pred := trajectory_pred s @ qs,
                 times_list := times_list s @ ts\<rparr>"
      "length qs = length ps" "length ts = length ps" "length ps = nat (N s) - 1"
    by auto
  have "sorted (times_list (m_self m'))"
    if "waits_nonneg (new_trace \<lparr>m_heap = h, m_self = s, m_env = e\<rparr> m')"
    using run_sorted [OF assms(2) that] by (simp add: s)
  moreover have "Suc (nat n - 1) = nat (max 1 n)" by (simp add: max_def)
  ultimately show ?thesis using ap by (simp add: s)
qed

text \<open>
  A run with \<open>N = 3\<close> and the waiting times 0.5 and 0.25 leaves three entries in each
  sequence and the times \<open>[0, 0.5, 0.75]\<close>. A run with \<open>N = 2\<close> whose waiting time is forced
  to -1 still leaves two entries in each sequence; its times are \<open>[0, -1]\<close>.
\<close>

theorem run_output_lengths_witness:
  "length (times_list (m_self (fst (run (demo_machine 50 100 3 ''H1'' []
      [(''theta'', Str ''H1''), (''event_1'', Str ''spawn_prey''), (''t_1'', Num 0.5),
       (''event_2'', Str ''prey2pred''), (''t_2'', Num 0.25)]))))) = 3 \<and>
   times_list (m_self (fst (run (demo_machine 50 100 3 ''H1'' []
      [(''theta'', Str ''H1''), (''event_1'', Str ''spawn_prey''), (''t_1'', Num 0.5),
       (''event_2'', Str ''prey2pred''), (''t_2'', Num 0.25)])))) = [0, 0.5, 0.75] \<and>
   sorted (times_list (m_self (fst (run (demo_machine 50 100 3 ''H1'' []
      [(''theta'', Str ''H1''), (''event_1'', Str ''spawn_prey''), (''t_1'', Num 0.5),
       (''event_2'', Str ''prey2pred''), (''t_2'', Num 0.25)]))))) \<and>
   length (trajectory_prey (m_self (fst (run (demo_machine 50 100 3 ''H1'' []
      [(''theta'', Str ''H1''), (''event_1'', Str ''spawn_prey''), (''t_1'', Num 0.5),
       (''event_2'', Str ''prey2pred''), (''t_2'', Num 0.25)]))))) = 3 \<and>
   length (trajectory_pred (m_self (fst (run (demo_machine 50 100 3 ''H1'' []
      [(''theta'', Str ''H1''), (''event_1'', Str ''spawn_prey''), (''t_1'', Num 0.5),
       (''event_2'', Str ''prey2pred''), (''t_2'', Num 0.25)]))))) = 3 \<and>
   times_list (m_self (fst (run (demo_machine 50 100 2 ''H1''
      [(''theta'', Str ''H1''), (''event_1'', Str ''spawn_prey''), (''t_1'', Num (- 1))] [])))) =
     [0, - 1] \<and>
   length (trajectory_prey (m_self (fst (run (demo_machine 50 100 2 ''H1''
      [(''theta'', Str ''H1''), (''event_1'', Str ''spawn_prey''), (''t_1'', Num (- 1))] []))))) = 2 \<and>
   length (trajectory_pred (m_self (fst (run (demo_machine 50 100 2 ''H1''
      [(''theta'', Str ''H1''), (''event_1'', Str ''spawn_prey''), (''t_1'', Num (- 1))] []))))) = 2"
proof -
  let ?h = "[[(''prey'', 50), (''pred'', 100 :: int)]]"
  let ?e = "demo_env [] [(''theta'', Str ''H1''), (''event_1'', Str ''spawn_prey''), (''t_1'', Num 0.5),
       (''event_2'', Str ''prey2pred''), (''t_2'', Num 0.25)]"
  let ?M = "\<lparr>m_heap = ?h, m_self = demo_sim 50 100 3 ''H1'', m_env = ?e\<rparr>"
  have i: "LV_init ?h notebook_transitions 0 3 ''H1'' 0 = Inr (demo_sim 50 100 3 ''H1'')"
    by (rule demo_sim_init)
  have r: "run ?M = (fst (run ?M), None)"
    by (simp add: run_eval)
  have nn: "waits_nonneg (new_trace ?M (fst (run ?M)))"
    by (simp add: run_eval new_trace_def waits_nonneg_def)
  from run_output_lengths [OF i r] nn have
    "length (times_list (m_self (fst (run ?M)))) = nat (max 1 3) \<and>
         length (trajectory_prey (m_self (fst (run ?M)))) = nat (max 1 3) \<and>
         length (trajectory_pred (m_self (fst (run ?M)))) = nat (max 1 3) \<and>
         sorted (times_list (m_self (fst (run ?M))))"
    by simp
  moreover have "times_list (m_self (fst (run ?M))) = [0, 0.5, 0.75]"
    by (simp add: run_eval)
  ultimately have one: "length (times_list (m_self (fst (run ?M)))) = 3 \<and>
      times_list (m_self (fst (run ?M))) = [0, 0.5, 0.75] \<and>
      sorted (times_list (m_self (fst (run ?M)))) \<and>
      length (trajectory_prey (m_self (fst (run ?M)))) = 3 \<and>
      length (trajectory_pred (m_self (fst (run ?M)))) = 3"
    by simp
  let ?e' = "demo_env [(''theta'', Str ''H1''), (''event_1'', Str ''spawn_prey''),
       (''t_1'', Num (- 1))] []"
  let ?M' = "\<lparr>m_heap = ?h, m_self = demo_sim 50 100 2 ''H1'', m_env = ?e'\<rparr>"
  have i': "LV_init ?h notebook_transitions 0 2 ''H1'' 0 = Inr (demo_sim 50 100 2 ''H1'')"
    by (rule demo_sim_init)
  have r': "run ?M' = (fst (run ?M'), None)"
    by (simp add: run_eval)
  from run_output_lengths [OF i' r'] have
    "length (trajectory_prey (m_self (fst (run ?M')))) = 2 \<and>
     length (trajectory_pred (m_self (fst (run ?M')))) = 2"
    by simp
  moreover have "times_list (m_self (fst (run ?M'))) = [0, - 1]"
    by (simp add: run_eval)
  ultimately show ?thesis using one by (simp add: demo_machine_def)
qed

text \<open>
  C5 as stated (exactly \<open>N\<close> entries for every requested \<open>N\<close>) fails for \<open>N = 0\<close>: the run
  returns and the time sequence holds the initial time. It also fails for a second run of
  the same object, which appends to the sequences the first run left: with \<open>N = 2\<close> the
  second run returns with three times (and starts again from \<open>self.times[0]\<close>).
\<close>

theorem run_output_lengths_counterexample:
  "N (m_self (demo_machine 50 100 0 ''H1'' [] [(''theta'', Str ''H1'')])) = 0 \<and>
   snd (run (demo_machine 50 100 0 ''H1'' [] [(''theta'', Str ''H1'')])) = None \<and>
   times_list (m_self (fst (run (demo_machine 50 100 0 ''H1'' [] [(''theta'', Str ''H1'')])))) = [0] \<and>
   length (times_list (m_self (fst (run (demo_machine 50 100 0 ''H1'' []
      [(''theta'', Str ''H1'')]))))) \<noteq> nat 0 \<and>
   N (m_self (fst (run (demo_machine 50 100 2 ''H1''
      [(''theta'', Str ''H1''), (''event_1'', Str ''spawn_prey''), (''t_1'', Num 0.5)] [])))) = 2 \<and>
   snd (run (fst (run (demo_machine 50 100 2 ''H1''
      [(''theta'', Str ''H1''), (''event_1'', Str ''spawn_prey''), (''t_1'', Num 0.5)] [])))) = None \<and>
   times_list (m_self (fst (run (fst (run (demo_machine 50 100 2 ''H1''
      [(''theta'', Str ''H1''), (''event_1'', Str ''spawn_prey''), (''t_1'', Num 0.5)] [])))))) =
     [0, 0.5, 0.5]"
  by (simp add: run_eval)

text \<open>
  C3, as the code has it. The loop has no test on the total hazard. In a state whose hazards
  sum to zero or less, an iteration still binds \<open>event_i\<close> to the categorical distribution
  over these hazards and \<open>t_i\<close> to the exponential distribution of that total; when the
  bound event names a transition with two deltas and the bound waiting time is a number, the
  iteration applies the transition, clamps, records the state and goes on, as in any other
  state.
\<close>

theorem degenerate_step_proceeds:
  assumes "eco < length (m_heap m)" and "get_hazards (m_heap m ! eco) theta = Inr hz"
    and "fle (py_sum (map snd hz)) (Fin 0)"
    and "lookup_val (transitions (m_self m)) (draw (m_env m) (event_label i) (Discrete hz)) =
           Some [dx, dy]"
    and "draw (m_env m) (t_label i) (Exponential (py_sum (map snd hz))) = Num dt"
  shows "\<exists>x y. map_of (m_heap m ! eco) ''prey'' = Some x \<and> map_of (m_heap m ! eco) ''pred'' = Some y \<and>
           run_step theta eco i t m =
             (step_result m eco (step_env (m_env m) i hz) (max 0 (x + dx)) (max 0 (y + dy)) (t + dt),
              Inr (t + dt)) \<and>
           new_trace m (fst (run_step theta eco i t m)) = step_binds (m_env m) i hz"
proof -
  from get_hazards_Inr [OF assms(2)] obtain x y where
    xy: "map_of (m_heap m ! eco) ''prey'' = Some x" "map_of (m_heap m ! eco) ''pred'' = Some y"
    by blast
  have st: "run_step theta eco i t m =
      (step_result m eco (step_env (m_env m) i hz) (max 0 (x + dx)) (max 0 (y + dy)) (t + dt),
       Inr (t + dt))"
    using assms(1,2,4,5) xy
    by (intro run_step_ok [where ev = "draw (m_env m) (event_label i) (Discrete hz)"
          and ?e1.0 = "bound (m_env m) (event_label i) (Discrete hz)" and tr = "[dx, dy]"])
       (simp_all add: env_bind_eq step_env_def index_def)
  from run_step_trace(5) [OF st] assms(2) have
    "new_trace m (fst (run_step theta eco i t m)) = step_binds (m_env m) i hz"
    by (simp add: st)
  with xy st show ?thesis by blast
qed


theorem degenerate_step_proceeds_witness:
  "get_hazards [(''prey'', 0), (''pred'', 0)]
      [(''spawn_prey'', Fin 1), (''prey2pred'', Fin 0.005), (''pred_dies'', Fin 0.6)] =
     Inr [(''spawn_prey'', Fin 0), (''prey2pred'', Fin 0), (''pred_dies'', Fin 0)] \<and>
   snd (run_step [(''spawn_prey'', Fin 1), (''prey2pred'', Fin 0.005), (''pred_dies'', Fin 0.6)] 0 1 0
     (demo_machine 0 0 2 ''H1'' [(''event_1'', Str ''spawn_prey''), (''t_1'', Num 1)] [])) = Inr 1 \<and>
   m_heap (fst (run_step [(''spawn_prey'', Fin 1), (''prey2pred'', Fin 0.005), (''pred_dies'', Fin 0.6)] 0 1 0
     (demo_machine 0 0 2 ''H1'' [(''event_1'', Str ''spawn_prey''), (''t_1'', Num 1)] []))) =
     [[(''prey'', 1), (''pred'', 0)]]"
proof -
  let ?theta = "[(''spawn_prey'', Fin 1), (''prey2pred'', Fin 0.005), (''pred_dies'', Fin 0.6)]"
  let ?hz = "[(''spawn_prey'', Fin 0), (''prey2pred'', Fin 0), (''pred_dies'', Fin 0)]"
  let ?M = "demo_machine 0 0 2 ''H1'' [(''event_1'', Str ''spawn_prey''), (''t_1'', Num 1)] []"
  have hz: "get_hazards (m_heap ?M ! 0) ?theta = Inr ?hz"
    by (simp add: get_hazards_def py_mul_def float_of_int_def overflow_threshold_def
        demo_machine_def)
  have "\<exists>x y. map_of (m_heap ?M ! 0) ''prey'' = Some x \<and> map_of (m_heap ?M ! 0) ''pred'' = Some y \<and>
           run_step ?theta 0 1 0 ?M =
             (step_result ?M 0 (step_env (m_env ?M) 1 ?hz) (max 0 (x + 1)) (max 0 (y + 0)) (0 + 1),
              Inr (0 + 1)) \<and>
           new_trace ?M (fst (run_step ?theta 0 1 0 ?M)) = step_binds (m_env ?M) 1 ?hz"
    by (rule degenerate_step_proceeds [OF _ hz])
      (simp_all add: run_eval draw_def)
  then have "snd (run_step ?theta 0 1 0 ?M) = Inr 1 \<and>
     m_heap (fst (run_step ?theta 0 1 0 ?M)) = [[(''prey'', 1), (''pred'', 0)]]"
    by (auto simp: step_result_def demo_machine_def)
  with hz show ?thesis by (simp add: demo_machine_def)
qed

text \<open>
  C3 as stated fails when both species are extinct: all hazards are 0, yet the run binds
  \<open>event_1\<close> and \<open>t_1\<close> against the zero-total distributions, raises nothing and records a
  step (with the forced event \<open>spawn_prey\<close>, a prey appears).
\<close>

theorem degenerate_state_counterexample:
  "get_hazards [(''prey'', 0), (''pred'', 0)]
      [(''spawn_prey'', Fin 1), (''prey2pred'', Fin 0.005), (''pred_dies'', Fin 0.6)] =
     Inr [(''spawn_prey'', Fin 0), (''prey2pred'', Fin 0), (''pred_dies'', Fin 0)] \<and>
   fle (py_sum (map snd [(''spawn_prey'', Fin 0), (''prey2pred'', Fin 0), (''pred_dies'', Fin 0)]))
     (Fin 0) \<and>
   snd (run (demo_machine 0 0 2 ''H1''
     [(''theta'', Str ''H1''), (''event_1'', Str ''spawn_prey''), (''t_1'', Num 1)] [])) = None \<and>
   trace (m_env (fst (run (demo_machine 0 0 2 ''H1''
     [(''theta'', Str ''H1''), (''event_1'', Str ''spawn_prey''), (''t_1'', Num 1)] [])))) =
     [(''theta'', Discrete [(''H1'', Fin 1), (''H2'', Fin 0), (''H3'', Fin 0)], Str ''H1'', True),
      (''event_1'', Discrete [(''spawn_prey'', Fin 0), (''prey2pred'', Fin 0), (''pred_dies'', Fin 0)],
         Str ''spawn_prey'', True),
      (''t_1'', Exponential (Fin 0), Num 1, True)] \<and>
   trajectory_prey (m_self (fst (run (demo_machine 0 0 2 ''H1''
     [(''theta'', Str ''H1''), (''event_1'', Str ''spawn_prey''), (''t_1'', Num 1)] [])))) = [0, 1] \<and>
   times_list (m_self (fst (run (demo_machine 0 0 2 ''H1''
     [(''theta'', Str ''H1''), (''event_1'', Str ''spawn_prey''), (''t_1'', Num 1)] [])))) = [0, 1]"
  by (simp add: run_eval)




text \<open>
  C6. In a run that returns, on a simulator fresh from \<open>__init__\<close>, the first choice bound is
  \<open>theta\<close>, against the prior that \<open>select_hyp\<close> selects, and no later choice has that label:
  the hypothesis is drawn once, before the first iteration. The value drawn names a
  hypothesis of the table, and every iteration binds \<open>event_i\<close> and \<open>t_i\<close> to the hazards
  that this one hypothesis gives for the counts recorded before it. When \<open>select_hyp\<close> is
  H1, H2 or H3 the prior gives the pinned hypothesis probability 1 and every other key
  probability 0, so a draw of positive probability is the pinned hypothesis.
\<close>

theorem hypothesis_drawn_once:
  assumes "LV_init h trs a n sel t0 = Inr s"
    and "run \<lparr>m_heap = h, m_self = s, m_env = e\<rparr> = (m', None)"
  shows "\<exists>ws k ob theta rest.
           theta_prior sel = Discrete ws \<and>
           new_trace \<lparr>m_heap = h, m_self = s, m_env = e\<rparr> m' = (''theta'', Discrete ws, Str k, ob) # rest \<and>
           ''theta'' \<notin> fst ` set rest \<and>
           map_of theta_hypotheses k = Some theta \<and>
           map label_dist rest =
             expected_binds theta [1..<nat n] (trajectory_prey (m_self m')) (trajectory_pred (m_self m')) \<and>
           (sel \<in> {''H1'', ''H2'', ''H3''} \<longrightarrow>
              probability ws sel = Some 1 \<and> (\<forall>j. j \<noteq> sel \<longrightarrow> probability ws j = Some 0) \<and>
              ((\<exists>p. probability ws k = Some p \<and> 0 < p) \<longrightarrow> k = sel))"
proof -
  let ?M = "\<lparr>m_heap = h, m_self = s, m_env = e\<rparr>"
  from LV_init_Inr [OF assms(1)] obtain x y where
    xy: "map_of (h ! a) ''prey'' = Some x" "map_of (h ! a) ''pred'' = Some y"
    and s: "s = \<lparr>transitions = trs, select_hyp = sel, initial = a, times_list = [t0],
          trajectory_prey = [x], trajectory_pred = [y], N = n\<rparr>" by blast
  obtain ws where ws: "theta_prior sel = Discrete ws"
    by (cases "sel = ''none''") (simp_all add: theta_prior_def)
  let ?v = "draw e ''theta'' (Discrete ws)"
  from assms(2) obtain theta where th: "lookup_val theta_hypotheses ?v = Some theta"
    by (cases "lookup_val theta_hypotheses ?v") (auto simp: run_unfold_draw s ws)
  then obtain k where k: "?v = Str k" "map_of theta_hypotheses k = Some theta"
    by (cases ?v) auto
  from assms(2) th
  have rl: "run_loop theta (length h) [1..<nat n] t0 (pre_loop ?M) = (m', None)"
    by (simp add: run_unfold_draw s ws)
  have c0: "map_of (m_heap (pre_loop ?M) ! length h) ''prey'' = Some x"
    "map_of (m_heap (pre_loop ?M) ! length h) ''pred'' = Some y"
    using xy by (simp_all add: s)
  from run_loop_binds [OF rl _ c0] obtain ps qs where
    bs: "trajectory_prey (m_self m') = x # ps" "trajectory_pred (m_self m') = y # qs"
      "map label_dist (new_trace (pre_loop ?M) m') = expected_binds theta [1..<nat n] (x # ps) (y # qs)"
    by (auto simp: s)
  let ?rest = "new_trace (pre_loop ?M) m'"
  have nt: "new_trace ?M m' =
      (''theta'', Discrete ws, Str k, map_of (evidence e) ''theta'' \<noteq> None) # ?rest"
    using run_trace(6) [OF assms(2)] k(1) by (simp add: new_trace_pre_loop s ws)
  from run_loop_trace [OF rl] have "map fst ?rest = loop_labels [1..<nat n]" by blast
  then have "fst ` set ?rest = set (loop_labels [1..<nat n])"
    by (metis set_map)
  then have nth: "''theta'' \<notin> fst ` set ?rest"
    by (auto simp: set_loop_labels)
  have pin: "probability ws sel = Some 1 \<and> (\<forall>j. j \<noteq> sel \<longrightarrow> probability ws j = Some 0) \<and>
              ((\<exists>p. probability ws k = Some p \<and> 0 < p) \<longrightarrow> k = sel)"
    if "sel \<in> {''H1'', ''H2'', ''H3''}"
    using pinned_prior [OF that] ws by auto
  from ws nt nth k(2) bs pin show ?thesis
    by (intro exI [of _ ws] exI [of _ k] exI [of _ "map_of (evidence e) ''theta'' \<noteq> None"]
        exI [of _ theta] exI [of _ ?rest]) simp
qed

text \<open>
  A run with H3 pinned from \<open>{prey: 100, pred: 1}\<close> in which the predator dies and then a
  prey is born: both iterations use the rates of H3.
\<close>

theorem hypothesis_drawn_once_witness:
  "snd (run (demo_machine 100 1 3 ''H3'' []
      [(''theta'', Str ''H3''), (''event_1'', Str ''pred_dies''), (''t_1'', Num 0.5),
       (''event_2'', Str ''spawn_prey''), (''t_2'', Num 0.25)])) = None \<and>
   map label_dist (trace (m_env (fst (run (demo_machine 100 1 3 ''H3'' []
      [(''theta'', Str ''H3''), (''event_1'', Str ''pred_dies''), (''t_1'', Num 0.5),
       (''event_2'', Str ''spawn_prey''), (''t_2'', Num 0.25)]))))) =
     (''theta'', Discrete [(''H1'', Fin 0), (''H2'', Fin 0), (''H3'', Fin 1)]) #
     expected_binds [(''spawn_prey'', Fin 1.5), (''prey2pred'', Fin 0.01), (''pred_dies'', Fin 0.8)]
       [1, 2] [100, 100, 101] [1, 0, 0] \<and>
   expected_binds [(''spawn_prey'', Fin 1.5), (''prey2pred'', Fin 0.01), (''pred_dies'', Fin 0.8)]
       [1, 2] [100, 100, 101] [1, 0, 0] =
     [(''event_1'', Discrete [(''spawn_prey'', Fin 150), (''prey2pred'', Fin 1),
         (''pred_dies'', Fin 0.8)]),
      (''t_1'', Exponential (Fin 151.8)),
      (''event_2'', Discrete [(''spawn_prey'', Fin 150), (''prey2pred'', Fin 0),
         (''pred_dies'', Fin 0)]),
      (''t_2'', Exponential (Fin 150))] \<and>
   probability [(''H1'', Fin 0), (''H2'', Fin 0), (''H3'', Fin 1)] ''H3'' = Some 1 \<and>
   probability [(''H1'', Fin 0), (''H2'', Fin 0), (''H3'', Fin 1)] ''H1'' = Some 0 \<and>
   probability [(''H1'', Fin 0), (''H2'', Fin 0), (''H3'', Fin 1)] ''H2'' = Some 0"
proof -
  let ?h = "[[(''prey'', 100), (''pred'', 1 :: int)]]"
  let ?e = "demo_env [] [(''theta'', Str ''H3''), (''event_1'', Str ''pred_dies''), (''t_1'', Num 0.5),
       (''event_2'', Str ''spawn_prey''), (''t_2'', Num 0.25)]"
  let ?M = "\<lparr>m_heap = ?h, m_self = demo_sim 100 1 3 ''H3'', m_env = ?e\<rparr>"
  let ?ws = "[(''H1'', Fin 0), (''H2'', Fin 0), (''H3'', Fin 1)]"
  have i: "LV_init ?h notebook_transitions 0 3 ''H3'' 0 = Inr (demo_sim 100 1 3 ''H3'')"
    by (rule demo_sim_init)
  have r: "run ?M = (fst (run ?M), None)"
    by (simp add: run_eval)
  from hypothesis_drawn_once [OF i r] obtain ws k ob theta rest where
    "theta_prior ''H3'' = Discrete ws"
    "new_trace ?M (fst (run ?M)) = (''theta'', Discrete ws, Str k, ob) # rest"
    "map_of theta_hypotheses k = Some theta"
    "''H3'' \<in> {''H1'', ''H2'', ''H3''} \<longrightarrow>
              probability ws ''H3'' = Some 1 \<and> (\<forall>j. j \<noteq> ''H3'' \<longrightarrow> probability ws j = Some 0) \<and>
              ((\<exists>p. probability ws k = Some p \<and> 0 < p) \<longrightarrow> k = ''H3'')"
    by (elim exE conjE) (rule that; assumption)
  then have "probability ?ws ''H3'' = Some 1 \<and> probability ?ws ''H1'' = Some 0 \<and>
    probability ?ws ''H2'' = Some 0"
    by (simp add: theta_prior_def)
  moreover have "snd (run ?M) = None" by (simp add: run_eval)
  moreover have "map label_dist (trace (m_env (fst (run ?M)))) =
     [(''theta'', Discrete ?ws),
      (''event_1'', Discrete [(''spawn_prey'', Fin 150), (''prey2pred'', Fin 1),
         (''pred_dies'', Fin 0.8)]),
      (''t_1'', Exponential (Fin 151.8)),
      (''event_2'', Discrete [(''spawn_prey'', Fin 150), (''prey2pred'', Fin 0),
         (''pred_dies'', Fin 0)]),
      (''t_2'', Exponential (Fin 150))]"
    by (simp add: run_eval label_dist_def)
  moreover have "expected_binds [(''spawn_prey'', Fin 1.5), (''prey2pred'', Fin 0.01), (''pred_dies'', Fin 0.8)]
       [1, 2] [100, 100, 101] [1, 0, 0] =
     [(''event_1'', Discrete [(''spawn_prey'', Fin 150), (''prey2pred'', Fin 1),
         (''pred_dies'', Fin 0.8)]),
      (''t_1'', Exponential (Fin 151.8)),
      (''event_2'', Discrete [(''spawn_prey'', Fin 150), (''prey2pred'', Fin 0),
         (''pred_dies'', Fin 0)]),
      (''t_2'', Exponential (Fin 150))]"
    by (simp add: get_hazards_def py_mul_def float_of_int_demo fl_demo
        py_sum_def event_label_def t_label_def format_nat.simps digit_char_def)
  ultimately show ?thesis by (simp add: demo_machine_def)
qed

end
